theory Spec2Isabelle
  imports Main "HOL-Library.Sublist"
begin

section \<open>Text primitives of the host language\<close>

text \<open>
  The two generators are Python scripts that work on text. Text is modelled as
  \<^typ>\<open>string\<close> (a list of 8-bit characters), so the model covers ASCII input; the
  built-in string methods and the regular expressions the scripts call are written out
  below for exactly the forms in which the scripts use them.
\<close>

definition newline :: char where
  "newline = CHR 0x0A"

text \<open>\<^verbatim>\<open>str.isspace\<close> on the ASCII range (Python 3).\<close>

definition is_space :: "char \<Rightarrow> bool" where
  "is_space c = (c \<in> set [CHR 0x09, CHR 0x0A, CHR 0x0B, CHR 0x0C, CHR 0x0D,
                           CHR 0x1C, CHR 0x1D, CHR 0x1E, CHR 0x1F, CHR 0x20])"

definition is_digit :: "char \<Rightarrow> bool" where
  "is_digit c = (c \<in> set ''0123456789'')"

text \<open>\<^verbatim>\<open>s.strip()\<close> and \<^verbatim>\<open>s.rstrip('?')\<close>.\<close>

definition strip :: "string \<Rightarrow> string" where
  "strip s = rev (dropWhile is_space (rev (dropWhile is_space s)))"

definition rstrip_char :: "char \<Rightarrow> string \<Rightarrow> string" where
  "rstrip_char c s = rev (dropWhile (\<lambda>x. x = c) (rev s))"

text \<open>\<^verbatim>\<open>s.startswith(p)\<close> is \<^term>\<open>prefix p s\<close>; \<^verbatim>\<open>s.endswith(p)\<close>:\<close>

definition endswith :: "string \<Rightarrow> string \<Rightarrow> bool" where
  "endswith s p = prefix (rev p) (rev s)"

text \<open>\<^verbatim>\<open>s.find(sub)\<close>: the index of the first occurrence, \<open>None\<close> for Python's -1.\<close>

fun find_sub :: "string \<Rightarrow> string \<Rightarrow> nat option" where
  "find_sub sub [] = (if sub = [] then Some 0 else None)"
| "find_sub sub (c # cs) =
     (if prefix sub (c # cs) then Some 0 else map_option Suc (find_sub sub cs))"

text \<open>\<^verbatim>\<open>sub in s\<close>.\<close>

definition contains :: "string \<Rightarrow> string \<Rightarrow> bool" where
  "contains sub s = (find_sub sub s \<noteq> None)"

text \<open>
  \<^verbatim>\<open>s.split(sep)\<close> for a non-empty separator: cut at every occurrence, scanning from the
  left. (Python raises on an empty separator; the scripts only pass literals.)
\<close>

function py_split :: "string \<Rightarrow> string \<Rightarrow> string list" where
  "py_split sep s =
     (if sep = [] then [s]
      else case find_sub sep s of
             None \<Rightarrow> [s]
           | Some i \<Rightarrow> take i s # py_split sep (drop (i + length sep) s))"
  by pat_completeness auto
termination
proof (relation "measure (\<lambda>(sep, s). length s)", goal_cases)
  case 1
  show ?case by simp
next
  case (2 sep s i)
  have bound: "find_sub sep t = Some j \<Longrightarrow> j + length sep \<le> length t" for t j
  proof (induction t arbitrary: j)
    case Nil
    then show ?case by (simp split: if_splits)
  next
    case (Cons c cs)
    show ?case
    proof (cases "prefix sep (c # cs)")
      case True
      with Cons.prems show ?thesis using prefix_length_le [of sep "c # cs"] by simp
    next
      case False
      with Cons.prems obtain k where "find_sub sep cs = Some k" "j = Suc k" by auto
      with Cons.IH show ?thesis by simp
    qed
  qed
  from bound [OF 2(2)] 2(1) show ?case by (cases sep) auto
qed

declare py_split.simps [simp del]

text \<open>\<^verbatim>\<open>s.split(sep, 1)\<close> and \<^verbatim>\<open>s.rsplit(sep, 1)\<close>: at most one cut.\<close>

definition py_split1 :: "string \<Rightarrow> string \<Rightarrow> string list" where
  "py_split1 sep s =
     (case find_sub sep s of
        None \<Rightarrow> [s]
      | Some i \<Rightarrow> [take i s, drop (i + length sep) s])"

definition py_rsplit1 :: "string \<Rightarrow> string \<Rightarrow> string list" where
  "py_rsplit1 sep s =
     (case find_sub (rev sep) (rev s) of
        None \<Rightarrow> [s]
      | Some j \<Rightarrow> [take (length s - j - length sep) s, drop (length s - j) s])"

text \<open>The part of a text before its first line break: what \<^verbatim>\<open>.*\<close> can cross.\<close>

definition first_line :: "string \<Rightarrow> string" where
  "first_line s = takeWhile (\<lambda>c. c \<noteq> newline) s"

text \<open>Index of the last occurrence of a character.\<close>

definition rindex :: "char \<Rightarrow> string \<Rightarrow> nat option" where
  "rindex c s =
     (case find_sub [c] (rev s) of
        None \<Rightarrow> None
      | Some j \<Rightarrow> Some (length s - 1 - j))"

text \<open>\<^verbatim>\<open>str(i)\<close> for a non-negative integer: its decimal digits.\<close>

definition digit_char :: "nat \<Rightarrow> char" where
  "digit_char d = char_of (48 + d)"

fun str_nat :: "nat \<Rightarrow> string" where
  "str_nat n = (if n < 10 then [digit_char n] else str_nat (n div 10) @ [digit_char (n mod 10)])"

declare str_nat.simps [simp del]

text \<open>The value of a run of decimal digits (characters that are not digits are skipped).\<close>

definition dec_value :: "string \<Rightarrow> nat" where
  "dec_value ds = foldl (\<lambda>n c. 10 * n + (of_char c - 48)) 0 (filter is_digit ds)"

text \<open>
  \<^verbatim>\<open>int(s)\<close> and \<^verbatim>\<open>float(s)\<close> on ASCII text (Python 3): surrounding white space and one
  sign are allowed; digits may be grouped by single underscores. For \<^verbatim>\<open>float\<close> only
  whether the text is accepted is modelled, not the floating-point value.
\<close>

fun digitpart :: "string \<Rightarrow> bool" where
  "digitpart [] = False"
| "digitpart [c] = is_digit c"
| "digitpart (c # d # r) =
     (is_digit c \<and> (if d = CHR ''_'' then digitpart r else digitpart (d # r)))"

definition drop_sign :: "string \<Rightarrow> string" where
  "drop_sign t = (case t of [] \<Rightarrow> [] | c # r \<Rightarrow> if c = CHR ''-'' \<or> c = CHR ''+'' then r else t)"

definition py_int :: "string \<Rightarrow> int option" where
  "py_int s =
     (let t = strip s; body = drop_sign t
      in if digitpart body
         then Some (if prefix ''-'' t then - int (dec_value body) else int (dec_value body))
         else None)"

definition to_lower :: "string \<Rightarrow> string" where
  "to_lower s = map (\<lambda>c. if 65 \<le> (of_char c :: nat) \<and> (of_char c :: nat) \<le> 90
                    then char_of (of_char c + (32::nat)) else c) s"

definition mantissa_ok :: "string \<Rightarrow> bool" where
  "mantissa_ok m =
     (case py_split1 ''.'' m of
        [a] \<Rightarrow> digitpart a
      | [a, b] \<Rightarrow> (digitpart a \<and> (b = [] \<or> digitpart b)) \<or> (a = [] \<and> digitpart b)
      | _ \<Rightarrow> False)"

definition py_float_ok :: "string \<Rightarrow> bool" where
  "py_float_ok s =
     (let body = drop_sign (strip s); low = to_lower body
      in if low \<in> set [''inf'', ''infinity'', ''nan''] then True
         else case py_split1 ''e'' low of
                [m] \<Rightarrow> mantissa_ok m
              | [m, e] \<Rightarrow> mantissa_ok m \<and> digitpart (drop_sign e)
              | _ \<Rightarrow> False)"

section \<open>The declaration compiler: \<^verbatim>\<open>aten/src/ATen/native_parse.py\<close>\<close>

subsection \<open>Data\<close>

text \<open>
  Every failure of the script is an exception that ends the run. The constructors name
  the places that raise:
  \<^item> \<open>MissingReturnArrow\<close>: \<^verbatim>\<open>raise Exception('Expected return declaration')\<close> in \<^verbatim>\<open>run\<close>;
  \<^item> \<open>UnterminatedArgumentList\<close>: \<^verbatim>\<open>assert arguments[-1] == ")"\<close> in \<^verbatim>\<open>run\<close>;
  \<^item> \<open>DeprecatedLiteral\<close>: the two \<^verbatim>\<open>RuntimeError\<close>s of \<^verbatim>\<open>parse_default\<close>;
  \<^item> \<open>DuplicateKeywordMarker\<close>: \<^verbatim>\<open>assert not kwarg_only\<close>;
  \<^item> \<open>InPlaceSelfMissing\<close>: the assertions "needs to annotate Tensor argument named
    self as mutable" and "needs Tensor argument named self" of \<^verbatim>\<open>parse_arguments\<close>;
  \<^item> \<open>InPlaceAnnotationMismatch\<close>: the assertion "annotations ... need to match between
    input and correponding output";
  \<^item> \<open>InPlaceReturnNotMutable\<close>: the assertion of \<^verbatim>\<open>parse_return_arguments\<close>;
  \<^item> \<open>OutVariantWrongVariant\<close>: the \<^verbatim>\<open>RuntimeError\<close> at the head of \<^verbatim>\<open>parse_arguments\<close>;
  \<^item> \<open>AssertionError\<close>: the assertions without a message;
  \<^item> \<open>ValueError\<close>: unpacking a list of the wrong length;
  \<^item> \<open>IndexError\<close>: indexing out of range.
\<close>

datatype error =
    MissingReturnArrow
  | UnterminatedArgumentList
  | DeprecatedLiteral
  | DuplicateKeywordMarker
  | InPlaceSelfMissing
  | InPlaceAnnotationMismatch
  | InPlaceReturnNotMutable
  | OutVariantWrongVariant
  | AssertionError
  | ValueError
  | IndexError

text \<open>A decoded default: a boolean, a text, an integer, or a float kept as its text.\<close>

datatype default_value = DBool bool | DStr string | DInt int | DFloat string

text \<open>
  The dictionaries built for arguments and for returns. A key that a dictionary may lack
  is an option (\<open>arg_output\<close> and \<open>kwarg_only\<close> are only ever stored as \<^verbatim>\<open>True\<close>, so a
  boolean says whether the key is there); \<open>annotation\<close> is always stored, possibly as
  \<^verbatim>\<open>None\<close>.
\<close>

record argument_dict =
  arg_type :: string
  arg_name :: string
  is_nullable :: "bool option"
  arg_size :: "nat option"
  arg_default :: "default_value option"
  arg_output :: bool
  kwarg_only :: bool
  annotation :: "string option"
  field_name :: "string option"

text \<open>The value of the \<^verbatim>\<open>variants\<close> and \<^verbatim>\<open>dispatch\<close> keys as the YAML loader delivers them.\<close>

datatype yaml_variants = VString string | VList "string list"

datatype yaml_dispatch = DispatchName string | DispatchTable "(string \<times> string) list"

text \<open>One input record (\<^verbatim>\<open>func\<close> in \<^verbatim>\<open>run\<close>); an absent key is \<open>None\<close>.\<close>

record raw_function_spec =
  raw_func :: string
  raw_name :: "string option"
  raw_variants :: "yaml_variants option"
  raw_requires_tensor :: "bool option"
  raw_matches_jit_signature :: "bool option"
  raw_cpu_half :: "bool option"
  raw_deprecated :: "bool option"
  raw_device_guard :: "bool option"
  raw_arguments :: "argument_dict list option"
  raw_dispatch :: "yaml_dispatch option"
  raw_python_module :: "string option"

record native_declaration =
  decl_mode :: string
  decl_schema_string :: string
  decl_name :: string
  decl_inplace :: bool
  decl_return :: "argument_dict list"
  decl_variants :: yaml_variants
  decl_requires_tensor :: bool
  decl_matches_jit_signature :: bool
  decl_cpu_half :: bool
  decl_deprecated :: bool
  decl_device_guard :: bool
  decl_arguments :: "argument_dict list"
  decl_type_method_definition_dispatch :: yaml_dispatch
  decl_python_module :: string
  decl_aten_sparse :: bool

subsection \<open>Type translation and default decoding\<close>

definition temp_type_translations :: "string \<Rightarrow> string" where
  "temp_type_translations typ =
     (if typ = ''Tensor[]'' then ''TensorList''
      else if typ = ''int[]'' then ''IntList''
      else if typ = ''int'' then ''int64_t''
      else if typ = ''float'' then ''double''
      else typ)"

text \<open>\<^verbatim>\<open>re.match(r'\[.*\]', s)\<close>: an opening bracket, then a closing one on the same line.\<close>

definition bracketed :: "string \<Rightarrow> bool" where
  "bracketed s = (case s of [] \<Rightarrow> False | c # r \<Rightarrow> c = CHR ''['' \<and> CHR '']'' \<in> set (first_line r))"

definition parse_default :: "string \<Rightarrow> error + default_value" where
  "parse_default s =
     (if s = ''True'' then Inr (DBool True)
      else if s = ''False'' then Inr (DBool False)
      else if s = ''true'' then Inl DeprecatedLiteral
      else if s = ''false'' then Inl DeprecatedLiteral
      else if s = ''nullptr'' then Inr (DStr s)
      else if s = ''[]'' then Inr (DStr ''{}'')
      else if bracketed s then Inr (DStr (''{'' @ butlast (tl s) @ ''}''))
      else if s = ''None'' then Inr (DStr ''c10::nullopt'')
      else if s = ''Mean'' then Inr (DStr ''Reduction::Mean'')
      else case py_int s of
             Some i \<Rightarrow> Inr (DInt i)
           | None \<Rightarrow> if py_float_ok s then Inr (DFloat s) else Inr (DStr s))"

definition sanitize_type :: "string \<Rightarrow> string" where
  "sanitize_type typ = (if typ = ''Generator*'' then ''Generator *'' else typ)"

definition sanitize_types :: "string \<Rightarrow> error + string list" where
  "sanitize_types types =
     (if types = [] then Inl IndexError
      else if hd types = CHR ''('' \<and> last types = CHR '')''
      then Inr (map (\<lambda>x. sanitize_type (strip x)) (py_split '','' (butlast (tl types))))
      else Inr [sanitize_type types])"

text \<open>
  \<^verbatim>\<open>re.match(r'(Tensor.*)\((.+)\)', t)\<close>. Both repetitions are greedy and stay on the
  first line: the closing parenthesis is the last one of the line, the opening one the
  last that leaves at least one character between the two. What follows the closing
  parenthesis is dropped with the match.
\<close>

definition get_annotation :: "string \<Rightarrow> string \<times> string option" where
  "get_annotation t =
     (if prefix ''Tensor'' t
      then (let body = drop 6 (first_line t)
            in case rindex (CHR '')'') body of
                 None \<Rightarrow> (t, None)
               | Some q \<Rightarrow>
                   (case rindex (CHR ''('') (take (q - 1) body) of
                      None \<Rightarrow> (t, None)
                    | Some p \<Rightarrow> (''Tensor'' @ take p body,
                                 Some (take (q - p - 1) (drop (p + 1) body)))))
      else (t, None))"

text \<open>\<^verbatim>\<open>re.match(r'int\[(\d+)\]', typ)\<close>, giving the number when it matches.\<close>

definition int_list_size :: "string \<Rightarrow> nat option" where
  "int_list_size typ =
     (if prefix ''int['' typ
      then (let ds = takeWhile is_digit (drop 4 typ); rest = dropWhile is_digit (drop 4 typ)
            in if ds \<noteq> [] \<and> prefix '']'' rest then Some (dec_value ds) else None)
      else None)"

text \<open>
  \<^verbatim>\<open>re.search('(^__i|[^_]_$)', fn_name) is not None\<close>. \<^verbatim>\<open>$\<close> matches at the end of the
  text and also before one final line break; \<^verbatim>\<open>[^_]\<close> is any character but the
  underscore.
\<close>

definition ends_other_underscore :: "string \<Rightarrow> bool" where
  "ends_other_underscore s =
     (case rev s of u # c # _ \<Rightarrow> u = CHR ''_'' \<and> c \<noteq> CHR ''_'' | _ \<Rightarrow> False)"

definition is_inplace :: "string \<Rightarrow> bool" where
  "is_inplace fn_name =
     (prefix ''__i'' fn_name \<or> ends_other_underscore fn_name
      \<or> (fn_name \<noteq> [] \<and> last fn_name = newline \<and> ends_other_underscore (butlast fn_name)))"

subsection \<open>Arguments\<close>

text \<open>
  The \<^verbatim>\<open>variants\<close> values under which an \<^verbatim>\<open>_out\<close> function is accepted:
  \<^verbatim>\<open>func_decl.get('variants', []) not in [[], 'function', ['function']]\<close>.
\<close>

definition variants_allowed_for_out :: "yaml_variants option \<Rightarrow> bool" where
  "variants_allowed_for_out v =
     ((case v of None \<Rightarrow> VList [] | Some x \<Rightarrow> x)
        \<in> set [VList [], VString ''function'', VList [''function'']])"

text \<open>
  Lines 127 to 137 of the script: the default of an argument whose name carries
  \<^verbatim>\<open>=\<close>, with the two rewritings of \<^verbatim>\<open>None\<close> that depend on the type.
\<close>

definition split_default :: "string \<Rightarrow> string \<Rightarrow> error + string \<times> default_value option" where
  "split_default t name =
     (if contains ''='' name
      then (case py_split1 ''='' name of
              [n, d] \<Rightarrow>
                (let d1 = (if t = ''Tensor?'' \<and> d = ''None'' then ''[]'' else d);
                     d2 = (if t = ''Generator*'' \<and> d1 = ''None'' then ''nullptr'' else d1)
                 in case parse_default d2 of
                      Inl e \<Rightarrow> Inl e
                    | Inr v \<Rightarrow> Inr (n, Some v))
            | _ \<Rightarrow> Inl IndexError)
      else Inr (name, None))"

text \<open>
  One pass of the loop of \<^verbatim>\<open>parse_arguments\<close> for a piece that is not the bare
  \<^verbatim>\<open>*\<close>: \<open>type_and_name\<close> is the piece cut at its last blank, \<open>arg_idx\<close> its position
  among all pieces, \<open>n_return\<close> is \<^verbatim>\<open>len(func_return)\<close>.
\<close>

definition parse_argument ::
  "bool \<Rightarrow> nat \<Rightarrow> nat \<Rightarrow> bool \<Rightarrow> string list \<Rightarrow> error + argument_dict" where
  "parse_argument is_out_fn n_return arg_idx kwarg type_and_name =
     (case type_and_name of
        [t0, name0] \<Rightarrow>
          (let (t1, annot) = get_annotation t0;
               t = (if t1 = ''Generator?'' then ''Generator*'' else t1)
           in case split_default t name0 of
                Inl e \<Rightarrow> Inl e
              | Inr (name, dflt) \<Rightarrow>
                  (case sanitize_types t of
                     Inl e \<Rightarrow> Inl e
                   | Inr typ \<Rightarrow>
                       if length typ \<noteq> 1 then Inl AssertionError
                       else (let ty = rstrip_char (CHR ''?'') (hd typ);
                                 sz = int_list_size ty;
                                 ty' = (if sz = None then ty else ''IntList'')
                             in Inr \<lparr> arg_type = temp_type_translations ty',
                                      arg_name = name,
                                      is_nullable = Some (endswith (hd typ) ''?''),
                                      arg_size = sz,
                                      arg_default = dflt,
                                      arg_output = (is_out_fn \<and> arg_idx < n_return),
                                      kwarg_only = kwarg,
                                      annotation = annot,
                                      field_name = None \<rparr>)))
      | _ \<Rightarrow> Inl ValueError)"

text \<open>
  The loop over \<^verbatim>\<open>enumerate(args.split(', '))\<close>: \<open>arg_idx\<close> counts every piece, the bare
  \<^verbatim>\<open>*\<close> included; the flag \<open>kwarg\<close> is the variable \<^verbatim>\<open>kwarg_only\<close>.
\<close>

fun arguments_loop :: "bool \<Rightarrow> nat \<Rightarrow> nat \<Rightarrow> bool \<Rightarrow> string list \<Rightarrow> error + argument_dict list" where
  "arguments_loop is_out_fn n_return arg_idx kwarg [] = Inr []"
| "arguments_loop is_out_fn n_return arg_idx kwarg (arg # rest) =
     (let type_and_name = map strip (py_rsplit1 '' '' arg)
      in if type_and_name = [''*'']
         then (if kwarg then Inl DuplicateKeywordMarker
               else arguments_loop is_out_fn n_return (Suc arg_idx) True rest)
         else case parse_argument is_out_fn n_return arg_idx kwarg type_and_name of
                Inl e \<Rightarrow> Inl e
              | Inr a \<Rightarrow>
                  (case arguments_loop is_out_fn n_return (Suc arg_idx) kwarg rest of
                     Inl e \<Rightarrow> Inl e
                   | Inr as \<Rightarrow> Inr (a # as)))"

text \<open>
  The check of an in-place function: the loop over \<^verbatim>\<open>enumerate(arguments)\<close>, where
  \<open>arg_idx\<close> now counts the parsed arguments; it returns the flag \<^verbatim>\<open>found_self\<close>.
\<close>

definition mutable :: "string option \<Rightarrow> bool" where
  "mutable a = (case a of None \<Rightarrow> False | Some x \<Rightarrow> x \<noteq> [] \<and> endswith x ''!'')"

fun self_loop :: "nat \<Rightarrow> bool \<Rightarrow> argument_dict list \<Rightarrow> argument_dict list \<Rightarrow> error + bool" where
  "self_loop arg_idx found_self [] func_return = Inr found_self"
| "self_loop arg_idx found_self (argument # rest) func_return =
     (if arg_name argument = ''self''
      then (if \<not> mutable (annotation argument) then Inl InPlaceSelfMissing
            else if \<not> arg_idx < length func_return then Inl IndexError
            else if annotation argument \<noteq> annotation (func_return ! arg_idx)
            then Inl InPlaceAnnotationMismatch
            else if arg_name argument \<noteq> arg_name (func_return ! arg_idx) then Inl AssertionError
            else if arg_type argument \<noteq> arg_type (func_return ! arg_idx) then Inl AssertionError
            else self_loop (Suc arg_idx) True rest func_return)
      else self_loop (Suc arg_idx) found_self rest func_return)"

definition parse_arguments ::
  "string \<Rightarrow> yaml_variants option \<Rightarrow> string \<Rightarrow> argument_dict list \<Rightarrow> bool
     \<Rightarrow> error + argument_dict list" where
  "parse_arguments args variants func_name func_return inplace =
     (let is_out_fn = endswith func_name ''_out''
      in if is_out_fn \<and> \<not> variants_allowed_for_out variants then Inl OutVariantWrongVariant
         else if length (strip args) = 0 then Inr []
         else case arguments_loop is_out_fn (length func_return) 0 False (py_split '', '' args) of
                Inl e \<Rightarrow> Inl e
              | Inr arguments \<Rightarrow>
                  if inplace \<and> length func_return > 0 \<and> arg_type (hd func_return) \<noteq> ''void''
                  then (case self_loop 0 False arguments func_return of
                          Inl e \<Rightarrow> Inl e
                        | Inr found_self \<Rightarrow>
                            if found_self then Inr arguments else Inl InPlaceSelfMissing)
                  else Inr arguments)"

subsection \<open>Returns\<close>

definition parse_return ::
  "bool \<Rightarrow> bool \<Rightarrow> nat \<Rightarrow> string list \<Rightarrow> error + argument_dict" where
  "parse_return inplace multiple_args arg_idx type_and_maybe_name =
     (case type_and_maybe_name of
        [t0] \<Rightarrow>
          (let (t, annot) = get_annotation t0
           in if t = ''Tensor'' \<and> inplace \<and> \<not> mutable annot then Inl InPlaceReturnNotMutable
              else Inr \<lparr> arg_type = temp_type_translations (sanitize_type t),
                         arg_name = (if t = ''Tensor'' \<and> inplace then ''self''
                                     else if \<not> multiple_args then ''result''
                                     else ''result'' @ str_nat arg_idx),
                         is_nullable = None, arg_size = None, arg_default = None,
                         arg_output = True, kwarg_only = False,
                         annotation = annot, field_name = None \<rparr>)
      | [t0, name] \<Rightarrow>
          (let (t, annot) = get_annotation t0
           in Inr \<lparr> arg_type = temp_type_translations (sanitize_type t),
                      arg_name = name,
                      is_nullable = None, arg_size = None, arg_default = None,
                      arg_output = True, kwarg_only = False,
                      annotation = annot, field_name = Some name \<rparr>)
      | _ \<Rightarrow> Inl ValueError)"

fun returns_loop :: "bool \<Rightarrow> bool \<Rightarrow> nat \<Rightarrow> string list \<Rightarrow> error + argument_dict list" where
  "returns_loop inplace multiple_args arg_idx [] = Inr []"
| "returns_loop inplace multiple_args arg_idx (arg # rest) =
     (case parse_return inplace multiple_args arg_idx (map strip (py_rsplit1 '' '' arg)) of
        Inl e \<Rightarrow> Inl e
      | Inr r \<Rightarrow>
          (case returns_loop inplace multiple_args (Suc arg_idx) rest of
             Inl e \<Rightarrow> Inl e
           | Inr rs \<Rightarrow> Inr (r # rs)))"

definition parse_return_arguments :: "string \<Rightarrow> bool \<Rightarrow> error + argument_dict list" where
  "parse_return_arguments return_decl inplace =
     (if return_decl = [] then Inl IndexError
      else (let return_decl' =
                  (if hd return_decl = CHR ''('' \<and> last return_decl = CHR '')''
                   then butlast (tl return_decl) else return_decl);
                pieces = py_split '', '' return_decl'
            in returns_loop inplace (length pieces > 1) 0 pieces))"

subsection \<open>One record, and the run\<close>

definition has_sparse_dispatches :: "yaml_dispatch \<Rightarrow> bool" where
  "has_sparse_dispatches dispatches =
     (case dispatches of
        DispatchName n \<Rightarrow> list_ex (\<lambda>c. contains ''Sparse'' [c]) n
      | DispatchTable tab \<Rightarrow> list_ex (\<lambda>k. contains ''Sparse'' k) (map fst tab))"

text \<open>
  \<^verbatim>\<open>propagate_field_names\<close> assigns into the dictionaries of \<^verbatim>\<open>output_arguments\<close>. These
  are the very dictionaries of \<^verbatim>\<open>arguments\<close>, so the assignment shows in both lists:
  \<open>write_back\<close> puts the updated dictionaries back at their places among the arguments.
\<close>

fun propagate_loop :: "nat \<Rightarrow> argument_dict list \<Rightarrow> argument_dict list \<Rightarrow> error + argument_dict list" where
  "propagate_loop i output_arguments [] = Inr output_arguments"
| "propagate_loop i output_arguments (r # rest) =
     (case field_name r of
        None \<Rightarrow> propagate_loop (Suc i) output_arguments rest
      | Some f \<Rightarrow>
          if i < length output_arguments
          then propagate_loop (Suc i)
                 (output_arguments[i := (output_arguments ! i)\<lparr>field_name := Some f\<rparr>]) rest
          else Inl IndexError)"

definition propagate_field_names ::
  "argument_dict list \<Rightarrow> argument_dict list \<Rightarrow> error + argument_dict list" where
  "propagate_field_names output_arguments return_arguments =
     (if output_arguments \<noteq> [] then propagate_loop 0 output_arguments return_arguments
      else Inr output_arguments)"

fun write_back :: "argument_dict list \<Rightarrow> argument_dict list \<Rightarrow> argument_dict list" where
  "write_back [] outs = []"
| "write_back (a # rest) outs =
     (if arg_output a
      then (case outs of [] \<Rightarrow> a # write_back rest [] | out # outs' \<Rightarrow> out # write_back rest outs')
      else a # write_back rest outs)"

text \<open>The first steps of the body of \<^verbatim>\<open>run\<close>: the cut at \<^verbatim>\<open>->\<close> and at the first \<^verbatim>\<open>(\<close>.\<close>

definition split_signature :: "string \<Rightarrow> error + string \<times> string" where
  "split_signature f =
     (if contains ''->'' f
      then (case map strip (py_split ''->'' f) of
              [func_decl, return_decl] \<Rightarrow> Inr (func_decl, return_decl)
            | _ \<Rightarrow> Inl ValueError)
      else Inl MissingReturnArrow)"

definition split_func_decl :: "string \<Rightarrow> error + string \<times> string" where
  "split_func_decl func_decl =
     (case py_split1 ''('' func_decl of
        [fn_name, arguments] \<Rightarrow>
          if arguments = [] then Inl IndexError
          else if last arguments \<noteq> CHR '')'' then Inl UnterminatedArgumentList
          else Inr (fn_name, butlast arguments)
      | _ \<Rightarrow> Inl ValueError)"

definition opt_default :: "'a \<Rightarrow> 'a option \<Rightarrow> 'a" where
  "opt_default d v = (case v of None \<Rightarrow> d | Some x \<Rightarrow> x)"

text \<open>The body of the \<^verbatim>\<open>try\<close> of \<^verbatim>\<open>run\<close> for one record.\<close>

definition compile_record :: "raw_function_spec \<Rightarrow> error + native_declaration" where
  "compile_record f =
     (case split_signature (raw_func f) of
        Inl e \<Rightarrow> Inl e
      | Inr (func_decl, return_decl) \<Rightarrow>
     (case split_func_decl func_decl of
        Inl e \<Rightarrow> Inl e
      | Inr (fn_name, arguments_text) \<Rightarrow>
     (let name = opt_default fn_name (raw_name f);
          inplace = is_inplace fn_name
      in case parse_return_arguments return_decl inplace of
           Inl e \<Rightarrow> Inl e
         | Inr return_arguments \<Rightarrow>
     (case parse_arguments arguments_text (raw_variants f) name return_arguments inplace of
        Inl e \<Rightarrow> Inl e
      | Inr arguments \<Rightarrow>
     (case propagate_field_names (filter arg_output arguments) return_arguments of
        Inl e \<Rightarrow> Inl e
      | Inr output_arguments \<Rightarrow>
          (let dispatch = opt_default (DispatchName name) (raw_dispatch f)
           in Inr \<lparr> decl_mode = ''native'',
                      decl_schema_string = ''aten::'' @ raw_func f,
                      decl_name = name,
                      decl_inplace = inplace,
                      decl_return = (if length output_arguments = 0 then return_arguments
                                     else output_arguments),
                      decl_variants = opt_default (VList [''function'']) (raw_variants f),
                      decl_requires_tensor = opt_default False (raw_requires_tensor f),
                      decl_matches_jit_signature = opt_default False (raw_matches_jit_signature f),
                      decl_cpu_half = opt_default False (raw_cpu_half f),
                      decl_deprecated = opt_default False (raw_deprecated f),
                      decl_device_guard = opt_default True (raw_device_guard f),
                      decl_arguments = opt_default (write_back arguments output_arguments)
                                         (raw_arguments f),
                      decl_type_method_definition_dispatch = dispatch,
                      decl_python_module = opt_default [] (raw_python_module f),
                      decl_aten_sparse = has_sparse_dispatches dispatch \<rparr>))))))"

text \<open>
  \<^verbatim>\<open>run\<close>: the records of every file in turn (the YAML loader has already turned each
  file into its list of records); the first exception ends the run.
\<close>

fun compile_all :: "raw_function_spec list \<Rightarrow> error + native_declaration list" where
  "compile_all [] = Inr []"
| "compile_all (f # rest) =
     (case compile_record f of
        Inl e \<Rightarrow> Inl e
      | Inr d \<Rightarrow> (case compile_all rest of Inl e \<Rightarrow> Inl e | Inr ds \<Rightarrow> Inr (d # ds)))"

definition run :: "raw_function_spec list list \<Rightarrow> error + native_declaration list" where
  "run paths = compile_all (concat paths)"

text \<open>A record that carries nothing but the signature text.\<close>

definition signature_only :: "string \<Rightarrow> raw_function_spec" where
  "signature_only s =
     \<lparr> raw_func = s, raw_name = None, raw_variants = None, raw_requires_tensor = None,
       raw_matches_jit_signature = None, raw_cpu_half = None, raw_deprecated = None,
       raw_device_guard = None, raw_arguments = None, raw_dispatch = None,
       raw_python_module = None \<rparr>"

section \<open>The wrapper generator: \<^verbatim>\<open>qnnpack/generate-wrapper.py\<close>\<close>

text \<open>
  The table of the script, an association list in the order of the source: the condition
  (\<open>None\<close> for unconditional) and the files it guards.
\<close>

definition QNNPACK_SOURCES :: "(string option \<times> string list) list" where
  "QNNPACK_SOURCES =
     [(None,
         [''requantization/fp32-psimd.c'',
          ''requantization/fp32-scalar.c'',
          ''requantization/gemmlowp-scalar.c'',
          ''requantization/precise-psimd.c'',
          ''requantization/precise-scalar.c'',
          ''requantization/q31-scalar.c'',
          ''sgemm/6x8-psimd.c'',
          ''u8lut32norm/scalar.c'',
          ''x8lut/scalar.c'']),
      (Some ''defined(__arm__) || defined(__aarch64__)'',
         [''q8avgpool/mp8x9p8q-neon.c'',
          ''q8avgpool/up8x9-neon.c'',
          ''q8avgpool/up8xm-neon.c'',
          ''q8conv/4x8-neon.c'',
          ''q8conv/8x8-neon.c'',
          ''q8dwconv/mp8x25-neon.c'',
          ''q8dwconv/mp8x25-neon-per-channel.c'',
          ''q8dwconv/up8x9-neon.c'',
          ''q8dwconv/up8x9-neon-per-channel.c'',
          ''q8gavgpool/mp8x7p7q-neon.c'',
          ''q8gavgpool/up8x7-neon.c'',
          ''q8gavgpool/up8xm-neon.c'',
          ''q8gemm/4x-sumrows-neon.c'',
          ''q8gemm/4x8-neon.c'',
          ''q8gemm/4x8-dq-neon.c'',
          ''q8gemm/4x8c2-xzp-neon.c'',
          ''q8gemm/6x4-neon.c'',
          ''q8gemm/8x8-neon.c'',
          ''q8vadd/neon.c'',
          ''requantization/fp32-neon.c'',
          ''requantization/gemmlowp-neon.c'',
          ''requantization/precise-neon.c'',
          ''requantization/q31-neon.c'',
          ''sgemm/5x8-neon.c'',
          ''sgemm/6x8-neon.c'',
          ''u8clamp/neon.c'',
          ''u8maxpool/16x9p8q-neon.c'',
          ''u8maxpool/sub16-neon.c'',
          ''u8rmax/neon.c'',
          ''x8zip/x2-neon.c'',
          ''x8zip/x3-neon.c'',
          ''x8zip/x4-neon.c'',
          ''x8zip/xm-neon.c'']),
      (Some ''defined(__i386__) || defined(__i686__) || defined(__x86_64__)'',
         [''q8avgpool/mp8x9p8q-sse2.c'',
          ''q8avgpool/up8x9-sse2.c'',
          ''q8avgpool/up8xm-sse2.c'',
          ''q8conv/4x4c2-sse2.c'',
          ''q8dwconv/mp8x25-sse2.c'',
          ''q8dwconv/mp8x25-sse2-per-channel.c'',
          ''q8dwconv/up8x9-sse2.c'',
          ''q8dwconv/up8x9-sse2-per-channel.c'',
          ''q8gavgpool/mp8x7p7q-sse2.c'',
          ''q8gavgpool/up8x7-sse2.c'',
          ''q8gavgpool/up8xm-sse2.c'',
          ''q8gemm/2x4c8-sse2.c'',
          ''q8gemm/4x4c2-dq-sse2.c'',
          ''q8gemm/4x4c2-sse2.c'',
          ''q8vadd/sse2.c'',
          ''requantization/fp32-sse2.c'',
          ''requantization/gemmlowp-sse2.c'',
          ''requantization/gemmlowp-sse4.c'',
          ''requantization/gemmlowp-ssse3.c'',
          ''requantization/precise-sse2.c'',
          ''requantization/precise-sse4.c'',
          ''requantization/precise-ssse3.c'',
          ''requantization/q31-sse2.c'',
          ''requantization/q31-sse4.c'',
          ''requantization/q31-ssse3.c'',
          ''u8clamp/sse2.c'',
          ''u8maxpool/16x9p8q-sse2.c'',
          ''u8maxpool/sub16-sse2.c'',
          ''u8rmax/sse2.c'',
          ''x8zip/x2-sse2.c'',
          ''x8zip/x3-sse2.c'',
          ''x8zip/x4-sse2.c'',
          ''x8zip/xm-sse2.c'']),
      (Some ''defined(__arm__)'',
         [''hgemm/8x8-aarch32-neonfp16arith.S'',
          ''q8conv/4x8-aarch32-neon.S'',
          ''q8dwconv/up8x9-aarch32-neon.S'',
          ''q8dwconv/up8x9-aarch32-neon-per-channel.S'',
          ''q8gemm/4x8-aarch32-neon.S'',
          ''q8gemm/4x8-dq-aarch32-neon.S'',
          ''q8gemm/4x8c2-xzp-aarch32-neon.S'']),
      (Some ''defined(__aarch64__)'',
         [''q8conv/8x8-aarch64-neon.S'',
          ''q8gemm/8x8-aarch64-neon.S'',
          ''q8gemm/8x8-dq-aarch64-neon.S''])]"

definition BANNER :: string where
  "BANNER = ''/* Auto-generated by generate-wrappers.py script. Do not modify */''"

text \<open>
  The state the script works on: the content of every file, by path, and the set of
  directories. Paths are compared as texts. Creating a directory and opening a file for
  writing are taken to succeed: the failures of the operating system are not modelled.
\<close>

record file_system =
  files :: "string \<rightharpoonup> string"
  dirs :: "string set"

text \<open>\<^verbatim>\<open>os.path.join(a, b)\<close> and \<^verbatim>\<open>os.path.dirname(p)\<close> for POSIX paths.\<close>

definition path_join :: "string \<Rightarrow> string \<Rightarrow> string" where
  "path_join a b =
     (if prefix ''/'' b then b
      else if a = [] \<or> endswith a ''/'' then a @ b
      else a @ ''/'' @ b)"

definition dirname :: "string \<Rightarrow> string" where
  "dirname p =
     (case rindex (CHR ''/'') p of
        None \<Rightarrow> []
      | Some i \<Rightarrow>
          (let head = take (Suc i) p
           in if head \<noteq> [] \<and> \<not> list_all (\<lambda>c. c = CHR ''/'') head
              then rstrip_char (CHR ''/'') head else head))"

definition isdir :: "file_system \<Rightarrow> string \<Rightarrow> bool" where
  "isdir fs d = (d \<in> dirs fs)"

text \<open>\<^verbatim>\<open>os.makedirs(d)\<close>: the directory and every directory above it on the path.\<close>

definition makedirs :: "string \<Rightarrow> file_system \<Rightarrow> file_system" where
  "makedirs d fs =
     fs\<lparr>dirs := dirs fs \<union> set ([take i d. i \<leftarrow> [1..<length d], d ! i = CHR ''/''] @ [d])\<rparr>"

text \<open>\<^verbatim>\<open>print(x, file=wrapper)\<close> appends the text and a line break.\<close>

definition print_line :: "string \<Rightarrow> string \<Rightarrow> string" where
  "print_line x wrapper = wrapper @ x @ [newline]"

definition wrapper_text :: "string option \<Rightarrow> string \<Rightarrow> string" where
  "wrapper_text condition filename =
     (let wrapper = print_line [] (print_line BANNER [])
      in case condition of
           None \<Rightarrow> print_line (''#include <'' @ filename @ ''>'') wrapper
         | Some c \<Rightarrow>
             print_line (''#endif /* '' @ c @ '' */'')
               (print_line (''#include <'' @ filename @ ''>'')
                  (print_line (''#if '' @ c) wrapper)))"

text \<open>The body of the inner loop: one file of the table.\<close>

definition write_wrapper :: "string option \<Rightarrow> string \<Rightarrow> file_system \<Rightarrow> file_system" where
  "write_wrapper condition filename fs =
     (let filepath = path_join ''wrappers'' filename;
          fs1 = (if \<not> isdir fs (dirname filepath) then makedirs (dirname filepath) fs else fs)
      in fs1\<lparr>files := (files fs1)(filepath \<mapsto> wrapper_text condition filename)\<rparr>)"

fun write_wrappers :: "string option \<Rightarrow> string list \<Rightarrow> file_system \<Rightarrow> file_system" where
  "write_wrappers condition [] fs = fs"
| "write_wrappers condition (filename # filenames) fs =
     write_wrappers condition filenames (write_wrapper condition filename fs)"

fun generate :: "(string option \<times> string list) list \<Rightarrow> file_system \<Rightarrow> file_system" where
  "generate [] fs = fs"
| "generate ((condition, filenames) # table) fs =
     generate table (write_wrappers condition filenames fs)"

definition main :: "file_system \<Rightarrow> file_system" where
  "main fs = generate QNNPACK_SOURCES fs"

section \<open>The specification's wording, for comparison\<close>

text \<open>
  Two sentences of the specification are written out as they stand, to be compared with
  what the script computes. The in-place naming rule: the name starts with \<^verbatim>\<open>__i\<close>, or
  ends with \<^verbatim>\<open>_\<close> while not ending with \<^verbatim>\<open>__\<close>.
\<close>

definition spec_is_inplace :: "string \<Rightarrow> bool" where
  "spec_is_inplace fn_name =
     (prefix ''__i'' fn_name \<or> (endswith fn_name ''_'' \<and> \<not> endswith fn_name ''__''))"

text \<open>
  The cut of a signature at the first occurrence of \<^verbatim>\<open>->\<close>, failing only when there is
  none.
\<close>

definition spec_split_signature :: "string \<Rightarrow> error + string \<times> string" where
  "spec_split_signature f =
     (case py_split1 ''->'' f of
        [func_decl, return_decl] \<Rightarrow> Inr (strip func_decl, strip return_decl)
      | _ \<Rightarrow> Inl MissingReturnArrow)"

section \<open>Properties of the text primitives\<close>

lemma find_sub_char: "c \<notin> set xs \<Longrightarrow> find_sub [c] (xs @ c # ys) = Some (length xs)"
  by (induction xs) auto

lemma py_split1_char: "c \<notin> set xs \<Longrightarrow> py_split1 [c] (xs @ c # ys) = [xs, ys]"
  by (simp add: py_split1_def find_sub_char)

lemma contains_char: "contains [c] (xs @ c # ys)"
  by (induction xs) (auto simp: contains_def)

section \<open>Default values\<close>

lemma split_default_Tensor_None:
  "CHR ''='' \<notin> set name \<Longrightarrow>
     split_default ''Tensor?'' (name @ ''=None'') = Inr (name, Some (DStr ''{}''))"
  using py_split1_char [of "CHR ''=''" name "''None''"]
    contains_char [of "CHR ''=''" name "''None''"]
  by (simp add: split_default_def parse_default_def)

lemma get_annotation_Tensor_opt: "get_annotation ''Tensor?'' = (''Tensor?'', None)"
  by code_simp

lemma sanitize_types_Tensor_opt: "sanitize_types ''Tensor?'' = Inr [''Tensor?'']"
  by code_simp

text \<open>
  C5. Decoding of default values: the text \<^verbatim>\<open>true\<close> is refused with
  \<open>DeprecatedLiteral\<close>; \<^verbatim>\<open>True\<close> is the boolean true; \<^verbatim>\<open>[]\<close> is the empty aggregate
  \<^verbatim>\<open>{}\<close>; and an argument of type \<^verbatim>\<open>Tensor?\<close> written with the default \<^verbatim>\<open>None\<close> gets the
  empty aggregate \<^verbatim>\<open>{}\<close> as its default (\<^verbatim>\<open>None\<close> is first rewritten to \<^verbatim>\<open>[]\<close>), not the
  no-value text \<^verbatim>\<open>c10::nullopt\<close>. This holds at every position, for every argument name
  (a name is the text before the first \<^verbatim>\<open>=\<close>).
\<close>

theorem literal_decoding:
  "parse_default ''true'' = Inl DeprecatedLiteral
   \<and> parse_default ''True'' = Inr (DBool True)
   \<and> parse_default ''[]'' = Inr (DStr ''{}'')
   \<and> (CHR ''='' \<notin> set name \<longrightarrow>
        (\<exists>a. parse_argument is_out_fn n_return arg_idx kwarg [''Tensor?'', name @ ''=None''] = Inr a
           \<and> arg_name a = name
           \<and> arg_default a = Some (DStr ''{}'')
           \<and> arg_default a \<noteq> Some (DStr ''c10::nullopt'')))"
proof -
  have lit: "parse_default ''true'' = Inl DeprecatedLiteral"
    "parse_default ''True'' = Inr (DBool True)"
    "parse_default ''[]'' = Inr (DStr ''{}'')"
    by code_simp+
  have arg: "\<exists>a. parse_argument is_out_fn n_return arg_idx kwarg [''Tensor?'', name @ ''=None''] = Inr a
           \<and> arg_name a = name
           \<and> arg_default a = Some (DStr ''{}'')
           \<and> arg_default a \<noteq> Some (DStr ''c10::nullopt'')" if "CHR ''='' \<notin> set name"
    using split_default_Tensor_None [OF that]
    by (simp add: parse_argument_def get_annotation_Tensor_opt sanitize_types_Tensor_opt Let_def)
  from lit arg show ?thesis by blast
qed

theorem literal_decoding_witness:
  "CHR ''='' \<notin> set ''weight''
   \<and> parse_default ''true'' = Inl DeprecatedLiteral
   \<and> (case compile_record (signature_only ''f(Tensor? weight=None) -> Tensor'') of
         Inl e \<Rightarrow> [] | Inr d \<Rightarrow> map arg_default (decl_arguments d)) = [Some (DStr ''{}'')]
   \<and> (\<exists>a. parse_argument False 1 0 False [''Tensor?'', ''weight=None''] = Inr a
           \<and> arg_default a = Some (DStr ''{}''))"
proof -
  have h: "CHR ''='' \<notin> set ''weight''" by simp
  have c: "(case compile_record (signature_only ''f(Tensor? weight=None) -> Tensor'') of
         Inl e \<Rightarrow> [] | Inr d \<Rightarrow> map arg_default (decl_arguments d)) = [Some (DStr ''{}'')]"
    by code_simp
  from literal_decoding [of "''weight''" False 1 0 False] h c show ?thesis by auto
qed

section \<open>The in-place naming rule\<close>

lemma ends_other_underscore_iff:
  "ends_other_underscore s \<longleftrightarrow> (\<exists>pre c. c \<noteq> CHR ''_'' \<and> s = pre @ [c, CHR ''_''])"
proof
  assume "ends_other_underscore s"
  then obtain u c r where r: "rev s = u # c # r" and u: "u = CHR ''_''" and c: "c \<noteq> CHR ''_''"
    by (auto simp: ends_other_underscore_def split: list.splits)
  from r have "rev (rev s) = rev (u # c # r)" by simp
  then have "s = rev r @ [c, u]" by simp
  with u c show "\<exists>pre c. c \<noteq> CHR ''_'' \<and> s = pre @ [c, CHR ''_'']" by blast
next
  assume "\<exists>pre c. c \<noteq> CHR ''_'' \<and> s = pre @ [c, CHR ''_'']"
  then show "ends_other_underscore s" by (auto simp: ends_other_underscore_def)
qed


lemma ends_with_newline_iff:
  "(fn_name \<noteq> [] \<and> last fn_name = newline \<and> ends_other_underscore (butlast fn_name))
        \<longleftrightarrow> (\<exists>pre c. c \<noteq> CHR ''_'' \<and> fn_name = pre @ [c, CHR ''_'', newline])"
    (is "?l \<longleftrightarrow> ?r")
proof
  assume l: ?l
  then have "ends_other_underscore (butlast fn_name)" by simp
  then obtain pre c where c: "c \<noteq> CHR ''_''" and b: "butlast fn_name = pre @ [c, CHR ''_'']"
    unfolding ends_other_underscore_iff by blast
  from l have "fn_name = butlast fn_name @ [newline]"
    using append_butlast_last_id [of fn_name] by simp
  with b have "fn_name = pre @ [c, CHR ''_'', newline]" by simp
  with c show ?r by blast
next
  assume ?r
  then obtain pre c where c: "c \<noteq> CHR ''_''" and n: "fn_name = pre @ [c, CHR ''_'', newline]"
    by blast
  from n have b: "butlast fn_name = pre @ [c, CHR ''_'']"
    using butlast_snoc [of "pre @ [c, CHR ''_'']" newline] by simp
  from b c have "ends_other_underscore (butlast fn_name)"
    unfolding ends_other_underscore_iff by blast
  moreover from n have "fn_name \<noteq> []" "last fn_name = newline" by simp_all
  ultimately show ?l by simp
qed

text \<open>
  C4. A name is in-place exactly when it starts with \<^verbatim>\<open>__i\<close>, or it ends
  with a character other than the underscore followed by one underscore, where one final
  line break after that underscore is ignored. The rule asks for a character before the
  final underscore, so the name that is a single underscore is not in-place.
\<close>

theorem is_inplace_iff:
  "is_inplace fn_name \<longleftrightarrow>
     prefix ''__i'' fn_name
     \<or> (\<exists>pre c. c \<noteq> CHR ''_''
           \<and> (fn_name = pre @ [c, CHR ''_''] \<or> fn_name = pre @ [c, CHR ''_'', newline]))"
proof -
  have A: "ends_other_underscore fn_name
             \<longleftrightarrow> (\<exists>pre c. c \<noteq> CHR ''_'' \<and> fn_name = pre @ [c, CHR ''_''])"
    by (rule ends_other_underscore_iff)
  have B: "(fn_name \<noteq> [] \<and> last fn_name = newline \<and> ends_other_underscore (butlast fn_name))
             \<longleftrightarrow> (\<exists>pre c. c \<noteq> CHR ''_'' \<and> fn_name = pre @ [c, CHR ''_'', newline])"
    by (rule ends_with_newline_iff)
  have "is_inplace fn_name \<longleftrightarrow>
     prefix ''__i'' fn_name
     \<or> (\<exists>pre c. c \<noteq> CHR ''_'' \<and> fn_name = pre @ [c, CHR ''_''])
     \<or> (\<exists>pre c. c \<noteq> CHR ''_'' \<and> fn_name = pre @ [c, CHR ''_'', newline])"
    by (simp only: is_inplace_def A B)
  also have "\<dots> \<longleftrightarrow> prefix ''__i'' fn_name
     \<or> (\<exists>pre c. c \<noteq> CHR ''_''
           \<and> (fn_name = pre @ [c, CHR ''_''] \<or> fn_name = pre @ [c, CHR ''_'', newline]))"
    by blast
  finally show ?thesis .
qed

theorem is_inplace_iff_witness:
  "is_inplace ''add_'' \<and> is_inplace ''__iadd__'' \<and> \<not> is_inplace ''add__'' \<and> \<not> is_inplace ''_''"
proof -
  have a: "''add_'' = ''ad'' @ [CHR ''d'', CHR ''_'']" by simp
  have d: "CHR ''d'' \<noteq> CHR ''_''" by simp
  from a d have 1: "is_inplace ''add_''"
    unfolding is_inplace_iff [of "''add_''"] by blast
  have 2: "is_inplace ''__iadd__''" by code_simp
  have 3: "\<not> is_inplace ''add__''" by code_simp
  have 4: "\<not> is_inplace ''_''" by code_simp
  from 1 2 3 4 show ?thesis by simp
qed

text \<open>
  The rule in the specification's wording (the name ends with \<^verbatim>\<open>_\<close> and does not end with
  \<^verbatim>\<open>__\<close>) accepts the name that is a single underscore; the script does not.
\<close>

theorem single_underscore_not_inplace:
  "spec_is_inplace ''_'' \<and> \<not> is_inplace ''_''"
  by code_simp

section \<open>The cut of a signature at the arrow\<close>

lemma not_contains_Cons:
  "\<not> contains sub (c # cs) \<Longrightarrow> \<not> prefix sub (c # cs) \<and> \<not> contains sub cs"
  by (auto simp: contains_def split: if_splits)

lemma find_sub_arrow:
  "\<not> contains ''->'' l \<Longrightarrow> find_sub ''->'' (l @ ''->'' @ r) = Some (length l)"
proof (induction l)
  case Nil
  show ?case by simp
next
  case (Cons c cs)
  from not_contains_Cons [OF Cons.prems]
  have np: "\<not> prefix ''->'' (c # cs)" and nc: "\<not> contains ''->'' cs" by simp_all
  have "\<not> prefix ''->'' (c # cs @ ''->'' @ r)"
    using np by (cases cs) auto
  with Cons.IH [OF nc] show ?case by simp
qed

lemma py_split_not_contains: "\<not> contains sep s \<Longrightarrow> py_split sep s = [s]"
  by (subst py_split.simps) (simp add: contains_def)

lemma py_split_arrow:
  assumes "\<not> contains ''->'' l"
  shows "py_split ''->'' (l @ ''->'' @ r) = l # py_split ''->'' r"
proof -
  have "drop (length l + length ''->'') (l @ ''->'' @ r) = r" by simp
  moreover have "take (length l) (l @ ''->'' @ r) = l" by simp
  ultimately show ?thesis
    by (subst py_split.simps) (simp only: find_sub_arrow [OF assms] option.case, simp)
qed

lemma py_split_contains:
  assumes "contains sep s" and "sep \<noteq> []"
  shows "\<exists>a b rest. py_split sep s = a # b # rest"
proof -
  from assms(1) obtain i where i: "find_sub sep s = Some i" by (auto simp: contains_def)
  have ne: "\<exists>b rest. py_split sep t = b # rest" for t
    by (subst py_split.simps) (simp split: option.splits)
  from ne [of "drop (i + length sep) s"] obtain b rest
    where "py_split sep (drop (i + length sep) s) = b # rest" by blast
  with i assms(2) have "py_split sep s = take i s # b # rest"
    by (subst py_split.simps) simp
  then show ?thesis by blast
qed

lemma contains_arrow_append:
  assumes "\<not> contains ''->'' l"
  shows "contains ''->'' (l @ ''->'' @ r)"
proof -
  have "find_sub ''->'' (l @ ''->'' @ r) \<noteq> None"
    by (simp only: find_sub_arrow [OF assms]) simp
  then show ?thesis unfolding contains_def .
qed

lemma split_signature_one_arrow:
  assumes "\<not> contains ''->'' l" and "\<not> contains ''->'' r"
  shows "split_signature (l @ ''->'' @ r) = Inr (strip l, strip r)"
proof -
  have "py_split ''->'' (l @ ''->'' @ r) = [l, r]"
    by (simp only: py_split_arrow [OF assms(1)] py_split_not_contains [OF assms(2)])
  with contains_arrow_append [OF assms(1), of r] show ?thesis
    unfolding split_signature_def by (simp only: if_True) simp
qed

lemma split_signature_more_arrows:
  assumes "\<not> contains ''->'' l" and "contains ''->'' r"
  shows "split_signature (l @ ''->'' @ r) = Inl ValueError"
proof -
  from py_split_contains [OF assms(2)] obtain a b rest
    where "py_split ''->'' r = a # b # rest" by auto
  then have "py_split ''->'' (l @ ''->'' @ r) = l # a # b # rest"
    by (simp only: py_split_arrow [OF assms(1)])
  with contains_arrow_append [OF assms(1), of r] show ?thesis
    unfolding split_signature_def by (simp only: if_True) simp
qed

text \<open>
  C2. A signature without \<^verbatim>\<open>->\<close> makes the record fail with
  \<open>MissingReturnArrow\<close>. A signature with exactly one \<^verbatim>\<open>->\<close> is cut there into the
  function declaration and the return specification, both stripped of surrounding white
  space. A signature with more than one \<^verbatim>\<open>->\<close> is not cut at the first: the script cuts
  at every \<^verbatim>\<open>->\<close> and fails when it unpacks more than two pieces.
\<close>

theorem split_at_arrow:
  "(\<not> contains ''->'' (raw_func f) \<longrightarrow> compile_record f = Inl MissingReturnArrow)
   \<and> (raw_func f = l @ ''->'' @ r \<and> \<not> contains ''->'' l \<and> \<not> contains ''->'' r \<longrightarrow>
        split_signature (raw_func f) = Inr (strip l, strip r))
   \<and> (raw_func f = l @ ''->'' @ r \<and> \<not> contains ''->'' l \<and> contains ''->'' r \<longrightarrow>
        compile_record f = Inl ValueError)"
proof (intro conjI impI)
  assume "\<not> contains ''->'' (raw_func f)"
  then show "compile_record f = Inl MissingReturnArrow"
    by (simp add: compile_record_def split_signature_def)
next
  assume "raw_func f = l @ ''->'' @ r \<and> \<not> contains ''->'' l \<and> \<not> contains ''->'' r"
  then show "split_signature (raw_func f) = Inr (strip l, strip r)"
    using split_signature_one_arrow [of l r] by simp
next
  assume "raw_func f = l @ ''->'' @ r \<and> \<not> contains ''->'' l \<and> contains ''->'' r"
  then have "split_signature (raw_func f) = Inl ValueError"
    using split_signature_more_arrows [of l r] by simp
  then show "compile_record f = Inl ValueError"
    by (simp add: compile_record_def)
qed

theorem split_at_arrow_witness:
  "\<not> contains ''->'' (raw_func (signature_only ''f()''))
   \<and> compile_record (signature_only ''f()'') = Inl MissingReturnArrow
   \<and> raw_func (signature_only ''f() -> a'') = ''f() '' @ ''->'' @ '' a''
   \<and> \<not> contains ''->'' ''f() '' \<and> \<not> contains ''->'' '' a''
   \<and> split_signature (raw_func (signature_only ''f() -> a'')) = Inr (''f()'', ''a'')
   \<and> raw_func (signature_only ''f() -> a -> b'') = ''f() '' @ ''->'' @ '' a -> b''
   \<and> contains ''->'' '' a -> b''
   \<and> compile_record (signature_only ''f() -> a -> b'') = Inl ValueError"
proof -
  have 1: "\<not> contains ''->'' (raw_func (signature_only ''f()''))" by code_simp
  have 2: "raw_func (signature_only ''f() -> a'') = ''f() '' @ ''->'' @ '' a''"
    by (simp add: signature_only_def)
  have 3: "\<not> contains ''->'' ''f() ''" "\<not> contains ''->'' '' a''" by code_simp+
  have 4: "raw_func (signature_only ''f() -> a -> b'') = ''f() '' @ ''->'' @ '' a -> b''"
    by (simp add: signature_only_def)
  have 5: "contains ''->'' '' a -> b''" by code_simp
  have 6: "strip ''f() '' = ''f()''" "strip '' a'' = ''a''" by code_simp+
  note a = split_at_arrow [of "signature_only ''f()''" "[]" "[]"]
  note b = split_at_arrow [of "signature_only ''f() -> a''" "''f() ''" "'' a''"]
  note c = split_at_arrow [of "signature_only ''f() -> a -> b''" "''f() ''" "'' a -> b''"]
  from a 1 have r1: "compile_record (signature_only ''f()'') = Inl MissingReturnArrow" by blast
  from b 2 3 have "split_signature (raw_func (signature_only ''f() -> a''))
      = Inr (strip ''f() '', strip '' a'')" by blast
  with 6 have r2: "split_signature (raw_func (signature_only ''f() -> a'')) = Inr (''f()'', ''a'')"
    by simp
  from c 4 3 5 have r3: "compile_record (signature_only ''f() -> a -> b'') = Inl ValueError"
    by blast
  from 1 2 3 4 5 r1 r2 r3 show ?thesis by blast
qed

text \<open>
  A signature with two arrows: cutting at the first one would give the return
  specification \<^verbatim>\<open>a -> b\<close>; the script fails instead.
\<close>

theorem two_arrows_not_cut_at_first:
  "spec_split_signature ''f() -> a -> b'' = Inr (''f()'', ''a -> b'')
   \<and> split_signature ''f() -> a -> b'' = Inl ValueError
   \<and> compile_record (signature_only ''f() -> a -> b'') = Inl ValueError"
  by code_simp

section \<open>Functions that write into their arguments\<close>

lemma compile_record_parts:
  assumes "compile_record f = Inr d"
  obtains func_decl return_decl fn_name arguments_text return_arguments arguments output_arguments
  where "split_signature (raw_func f) = Inr (func_decl, return_decl)"
    and "split_func_decl func_decl = Inr (fn_name, arguments_text)"
    and "parse_return_arguments return_decl (is_inplace fn_name) = Inr return_arguments"
    and "parse_arguments arguments_text (raw_variants f) (opt_default fn_name (raw_name f))
           return_arguments (is_inplace fn_name) = Inr arguments"
    and "propagate_field_names (filter arg_output arguments) return_arguments = Inr output_arguments"
    and "decl_name d = opt_default fn_name (raw_name f)"
    and "decl_inplace d = is_inplace fn_name"
    and "decl_return d = (if length output_arguments = 0 then return_arguments else output_arguments)"
  using assms unfolding compile_record_def Let_def
  by (auto split: sum.splits prod.splits)

lemma parse_arguments_out_variant:
  "endswith func_name ''_out'' \<Longrightarrow> \<not> variants_allowed_for_out variants \<Longrightarrow>
     parse_arguments args variants func_name func_return inplace = Inl OutVariantWrongVariant"
  by (simp add: parse_arguments_def)

lemma variants_allowed_for_out_iff:
  "variants_allowed_for_out v \<longleftrightarrow>
     v \<in> {None, Some (VList []), Some (VString ''function''), Some (VList [''function''])}"
  by (cases v) (auto simp: variants_allowed_for_out_def)

text \<open>
  C6. For a record whose name ends in \<^verbatim>\<open>_out\<close>, compilation succeeds only when
  \<^verbatim>\<open>variants\<close> is the function variant (the text \<^verbatim>\<open>function\<close> or the list holding only
  it) or declares none (the key is absent, or an empty list). With any other value, a
  record whose signature is cut and whose returns are parsed fails with
  \<open>OutVariantWrongVariant\<close>: the check is the first step of the argument parser.
\<close>

theorem out_variant_check:
  "(compile_record f = Inr d \<and> endswith (decl_name d) ''_out'' \<longrightarrow>
      raw_variants f \<in> {None, Some (VList []), Some (VString ''function''), Some (VList [''function''])})
   \<and> (split_signature (raw_func f) = Inr (func_decl, return_decl)
      \<and> split_func_decl func_decl = Inr (fn_name, arguments_text)
      \<and> parse_return_arguments return_decl (is_inplace fn_name) = Inr return_arguments
      \<and> endswith (opt_default fn_name (raw_name f)) ''_out''
      \<and> raw_variants f \<notin> {None, Some (VList []), Some (VString ''function''), Some (VList [''function''])}
      \<longrightarrow> compile_record f = Inl OutVariantWrongVariant)"
proof (intro conjI impI)
  assume a: "compile_record f = Inr d \<and> endswith (decl_name d) ''_out''"
  then have c: "compile_record f = Inr d" and e: "endswith (decl_name d) ''_out''" by simp_all
  from c obtain fn_name arguments_text return_arguments arguments
    where p: "parse_arguments arguments_text (raw_variants f) (opt_default fn_name (raw_name f))
           return_arguments (is_inplace fn_name) = Inr arguments"
      and n: "decl_name d = opt_default fn_name (raw_name f)"
    by (rule compile_record_parts)
  have "variants_allowed_for_out (raw_variants f)"
  proof (rule ccontr)
    assume "\<not> variants_allowed_for_out (raw_variants f)"
    with e n p parse_arguments_out_variant show False by fastforce
  qed
  then show "raw_variants f \<in> {None, Some (VList []), Some (VString ''function''), Some (VList [''function''])}"
    by (simp only: variants_allowed_for_out_iff)
next
  assume a: "split_signature (raw_func f) = Inr (func_decl, return_decl)
      \<and> split_func_decl func_decl = Inr (fn_name, arguments_text)
      \<and> parse_return_arguments return_decl (is_inplace fn_name) = Inr return_arguments
      \<and> endswith (opt_default fn_name (raw_name f)) ''_out''
      \<and> raw_variants f \<notin> {None, Some (VList []), Some (VString ''function''), Some (VList [''function''])}"
  then have "\<not> variants_allowed_for_out (raw_variants f)"
    by (simp only: variants_allowed_for_out_iff) simp
  with a have "parse_arguments arguments_text (raw_variants f) (opt_default fn_name (raw_name f))
           return_arguments (is_inplace fn_name) = Inl OutVariantWrongVariant"
    using parse_arguments_out_variant by blast
  with a show "compile_record f = Inl OutVariantWrongVariant"
    by (simp add: compile_record_def Let_def)
qed


theorem out_variant_check_witness:
  "compile_record ((signature_only ''foo_out(Tensor self) -> Tensor'')
       \<lparr>raw_variants := Some (VString ''method'')\<rparr>) = Inl OutVariantWrongVariant
   \<and> \<not> isl (compile_record ((signature_only ''foo_out(Tensor self) -> Tensor'')
       \<lparr>raw_variants := Some (VString ''function'')\<rparr>))
   \<and> \<not> isl (compile_record (signature_only ''foo_out(Tensor self) -> Tensor''))
   \<and> raw_variants ((signature_only ''foo_out(Tensor self) -> Tensor'')
       \<lparr>raw_variants := Some (VString ''function'')\<rparr>)
         \<in> {None, Some (VList []), Some (VString ''function''), Some (VList [''function''])}"
proof -
  let ?s = "signature_only ''foo_out(Tensor self) -> Tensor''"
  let ?m = "?s\<lparr>raw_variants := Some (VString ''method'')\<rparr>"
  let ?f = "?s\<lparr>raw_variants := Some (VString ''function'')\<rparr>"
  let ?r = "\<lparr>arg_type = ''Tensor'', arg_name = ''result'', is_nullable = None,
         arg_size = None, arg_default = None, arg_output = True,
         kwarg_only = False, annotation = None, field_name = None\<rparr>"
  have f1: "\<not> isl (compile_record ?f)" by code_simp
  have f2: "\<not> isl (compile_record ?s)" by code_simp
  from f1 have f3: "compile_record ?f = Inr (projr (compile_record ?f))" by simp
  have f4: "endswith (decl_name (projr (compile_record ?f))) ''_out''" by code_simp
  have m1: "split_signature (raw_func ?m) = Inr (''foo_out(Tensor self)'', ''Tensor'')"
    by code_simp
  have m2: "split_func_decl ''foo_out(Tensor self)'' = Inr (''foo_out'', ''Tensor self'')"
    by code_simp
  have m3: "parse_return_arguments ''Tensor'' (is_inplace ''foo_out'') = Inr [?r]"
    by code_simp
  have m4: "endswith (opt_default ''foo_out'' (raw_name ?m)) ''_out''" by code_simp
  have m5: "raw_variants ?m
     \<notin> {None, Some (VList []), Some (VString ''function''), Some (VList [''function''])}"
    by (simp add: signature_only_def)
  from out_variant_check [of ?f "projr (compile_record ?f)"] f3 f4
  have a: "raw_variants ?f
     \<in> {None, Some (VList []), Some (VString ''function''), Some (VList [''function''])}"
    by blast
  from out_variant_check [of ?m _ "''foo_out(Tensor self)''" "''Tensor''" "''foo_out''"
      "''Tensor self''" "[?r]"] m1 m2 m3 m4 m5
  have b: "compile_record ?m = Inl OutVariantWrongVariant" by blast
  from a b f1 f2 show ?thesis by blast
qed

text \<open>
  C7. The arguments marked as output are meant to be the leading ones, as many as there
  are returns. The marking goes by the position of the piece in the argument text cut at
  \<^verbatim>\<open>, \<close> and the bare \<^verbatim>\<open>*\<close> takes a position of its own: in
  \<^verbatim>\<open>foo_out(*, Tensor out, Tensor self) -> Tensor\<close> there is one return, and the leading
  argument \<^verbatim>\<open>out\<close> is not marked (so the returns of the declaration are the parsed
  ones). Without the \<^verbatim>\<open>*\<close> it is marked.
\<close>

theorem star_moves_output_marking:
  "(case compile_record (signature_only ''foo_out(*, Tensor out, Tensor self) -> Tensor'') of
      Inl e \<Rightarrow> None
    | Inr d \<Rightarrow> Some (map arg_name (decl_arguments d), map arg_output (decl_arguments d),
                     map arg_name (decl_return d)))
     = Some ([''out'', ''self''], [False, False], [''result''])
   \<and> (case compile_record (signature_only ''foo_out(Tensor out, Tensor self) -> Tensor'') of
      Inl e \<Rightarrow> None
    | Inr d \<Rightarrow> Some (map arg_name (decl_arguments d), map arg_output (decl_arguments d),
                     map arg_name (decl_return d)))
     = Some ([''out'', ''self''], [True, False], [''out''])"
  by code_simp

section \<open>The returns of a declaration\<close>

lemma propagate_loop_nth:
  "propagate_loop i outs rs = Inr outs' \<Longrightarrow>
     length outs' = length outs
     \<and> (\<forall>j < length outs.
           outs' ! j =
             (if i \<le> j \<and> j - i < length rs
              then (case field_name (rs ! (j - i)) of
                      None \<Rightarrow> outs ! j
                    | Some f \<Rightarrow> (outs ! j)\<lparr>field_name := Some f\<rparr>)
              else outs ! j))"
proof (induction rs arbitrary: i outs)
  case Nil
  then show ?case by simp
next
  case (Cons r rest)
  show ?case
  proof (cases "field_name r")
    case None
    with Cons.prems have "propagate_loop (Suc i) outs rest = Inr outs'" by simp
    from Cons.IH [OF this] None show ?thesis
      by (auto simp: nth_Cons' Suc_diff_le split: option.splits)
  next
    case (Some f)
    with Cons.prems have lt: "i < length outs"
      and rec: "propagate_loop (Suc i) (outs[i := (outs ! i)\<lparr>field_name := Some f\<rparr>]) rest = Inr outs'"
      by (simp_all split: if_splits)
    from Cons.IH [OF rec] have len: "length outs' = length outs"
      and nth: "\<And>j. j < length outs \<Longrightarrow> outs' ! j =
             (if Suc i \<le> j \<and> j - Suc i < length rest
              then (case field_name (rest ! (j - Suc i)) of
                      None \<Rightarrow> (outs[i := (outs ! i)\<lparr>field_name := Some f\<rparr>]) ! j
                    | Some g \<Rightarrow> ((outs[i := (outs ! i)\<lparr>field_name := Some f\<rparr>]) ! j)\<lparr>field_name := Some g\<rparr>)
              else (outs[i := (outs ! i)\<lparr>field_name := Some f\<rparr>]) ! j)"
      by simp_all
    have "outs' ! j =
             (if i \<le> j \<and> j - i < length (r # rest)
              then (case field_name ((r # rest) ! (j - i)) of
                      None \<Rightarrow> outs ! j
                    | Some f \<Rightarrow> (outs ! j)\<lparr>field_name := Some f\<rparr>)
              else outs ! j)" if j: "j < length outs" for j
    proof (cases "j = i")
      case True
      with nth [OF j] lt Some show ?thesis by simp
    next
      case False
      show ?thesis
      proof (cases "i < j")
        case True
        then have "(r # rest) ! (j - i) = rest ! (j - Suc i)" by (simp add: nth_Cons')
        moreover from True have "j - i < length (r # rest) \<longleftrightarrow> j - Suc i < length rest" by auto
        moreover from True
        have "(outs[i := (outs ! i)\<lparr>field_name := Some f\<rparr>]) ! j = outs ! j" by simp
        ultimately show ?thesis using nth [OF j] True by (simp split: option.splits)
      next
        case False
        with \<open>j \<noteq> i\<close> have "j < i" by simp
        with nth [OF j] show ?thesis by simp
      qed
    qed
    with len show ?thesis by blast
  qed
qed

lemma parse_argument_field_name:
  "parse_argument outf n i k tn = Inr a \<Longrightarrow> field_name a = None \<and> arg_output a = (outf \<and> i < n)"
  unfolding parse_argument_def Let_def
  by (auto split: list.splits prod.splits sum.splits if_splits)

lemma arguments_loop_outputs:
  "arguments_loop outf n i k toks = Inr args \<Longrightarrow>
     (\<forall>a \<in> set args. field_name a = None) \<and> length (filter arg_output args) \<le> n - i"
proof (induction toks arbitrary: i k args)
  case Nil
  then show ?case by simp
next
  case (Cons tok rest)
  show ?case
  proof (cases "map strip (py_rsplit1 '' '' tok) = [''*'']")
    case True
    with Cons.prems have "arguments_loop outf n (Suc i) True rest = Inr args"
      by (simp split: if_splits)
    from Cons.IH [OF this] show ?thesis by auto
  next
    case False
    with Cons.prems obtain a as where
      a: "parse_argument outf n i k (map strip (py_rsplit1 '' '' tok)) = Inr a"
      and as: "arguments_loop outf n (Suc i) k rest = Inr as" and args: "args = a # as"
      by (auto split: sum.splits)
    from parse_argument_field_name [OF a] Cons.IH [OF as] args show ?thesis by auto
  qed
qed

lemma parse_arguments_outputs:
  assumes "parse_arguments args_text v name rets inpl = Inr args"
  shows "(\<forall>a \<in> set args. field_name a = None) \<and> length (filter arg_output args) \<le> length rets"
proof -
  from assms have "args = [] \<or>
      arguments_loop (endswith name ''_out'') (length rets) 0 False (py_split '', '' args_text) = Inr args"
    unfolding parse_arguments_def Let_def by (auto split: if_splits sum.splits)
  then show ?thesis using arguments_loop_outputs by fastforce
qed

text \<open>
  C10. When a record compiles and at least one of its parsed arguments is marked as
  output, the returns of the declaration are the output-marked arguments, in the order
  of the arguments, each carrying the field name of the parsed return at the same
  position; they are not the parsed returns. The parsed returns are the returns of the
  declaration only when no argument is marked as output.
\<close>

theorem returns_of_declaration:
  assumes "compile_record f = Inr d"
    and "split_signature (raw_func f) = Inr (func_decl, return_decl)"
    and "split_func_decl func_decl = Inr (fn_name, arguments_text)"
    and "parse_return_arguments return_decl (is_inplace fn_name) = Inr return_arguments"
    and "parse_arguments arguments_text (raw_variants f) (opt_default fn_name (raw_name f))
           return_arguments (is_inplace fn_name) = Inr arguments"
  shows "decl_return d =
           (if filter arg_output arguments = [] then return_arguments
            else map (\<lambda>(a, r). a\<lparr>field_name := field_name r\<rparr>)
                   (zip (filter arg_output arguments) return_arguments))"
proof -
  let ?outs = "filter arg_output arguments"
  from assms obtain output_arguments where
    p: "propagate_field_names ?outs return_arguments = Inr output_arguments"
    and r: "decl_return d = (if length output_arguments = 0 then return_arguments else output_arguments)"
    unfolding compile_record_def Let_def by (auto split: sum.splits)
  show ?thesis
  proof (cases "?outs = []")
    case True
    with p r show ?thesis by (simp add: propagate_field_names_def)
  next
    case False
    with p have "propagate_loop 0 ?outs return_arguments = Inr output_arguments"
      by (simp add: propagate_field_names_def)
    from propagate_loop_nth [OF this]
    have len: "length output_arguments = length ?outs"
      and nth: "\<And>j. j < length ?outs \<Longrightarrow> output_arguments ! j =
             (if j < length return_arguments
              then (case field_name (return_arguments ! j) of
                      None \<Rightarrow> ?outs ! j
                    | Some f \<Rightarrow> (?outs ! j)\<lparr>field_name := Some f\<rparr>)
              else ?outs ! j)"
      by simp_all
    from parse_arguments_outputs [OF assms(5)]
    have none: "\<And>a. a \<in> set arguments \<Longrightarrow> field_name a = None"
      and le: "length ?outs \<le> length return_arguments" by simp_all
    have "output_arguments = map (\<lambda>(a, r). a\<lparr>field_name := field_name r\<rparr>) (zip ?outs return_arguments)"
    proof (rule nth_equalityI)
      show "length output_arguments
              = length (map (\<lambda>(a, r). a\<lparr>field_name := field_name r\<rparr>) (zip ?outs return_arguments))"
        using len le by simp
    next
      fix j assume "j < length output_arguments"
      with len have j: "j < length ?outs" by simp
      with le have jr: "j < length return_arguments" by simp
      from j have "?outs ! j \<in> set ?outs" by (rule nth_mem)
      then have "?outs ! j \<in> set arguments" by simp
      from none [OF this] have fn: "field_name (?outs ! j) = None" .
      have "(?outs ! j)\<lparr>field_name := None\<rparr> = ?outs ! j"
        using fn by (cases "?outs ! j") simp
      with nth [OF j] jr have "output_arguments ! j = (?outs ! j)\<lparr>field_name := field_name (return_arguments ! j)\<rparr>"
        by (simp split: option.splits)
      with j jr show "output_arguments ! j
          = map (\<lambda>(a, r). a\<lparr>field_name := field_name r\<rparr>) (zip ?outs return_arguments) ! j"
        by simp
    qed
    with r False len show ?thesis by simp
  qed
qed


theorem returns_of_declaration_witness:
  "(case compile_record
           (signature_only ''foo_out(Tensor a, Tensor b, Tensor self) -> (Tensor x, Tensor y)'') of
      Inl e \<Rightarrow> None
    | Inr d \<Rightarrow> Some (map arg_name (decl_return d), map field_name (decl_return d),
                     map is_nullable (decl_return d)))
     = Some ([''a'', ''b''], [Some ''x'', Some ''y''], [Some False, Some False])
   \<and> (case compile_record (signature_only ''foo(Tensor a) -> (Tensor x, Tensor y)'') of
      Inl e \<Rightarrow> None
    | Inr d \<Rightarrow> Some (map arg_name (decl_return d), map field_name (decl_return d),
                     map is_nullable (decl_return d)))
     = Some ([''x'', ''y''], [Some ''x'', Some ''y''], [None, None])"
proof -
  let ?f = "signature_only ''foo_out(Tensor a, Tensor b, Tensor self) -> (Tensor x, Tensor y)''"
  let ?g = "signature_only ''foo(Tensor a) -> (Tensor x, Tensor y)''"
  let ?ret = "\<lambda>n. \<lparr>arg_type = ''Tensor'', arg_name = n, is_nullable = None,
         arg_size = None, arg_default = None, arg_output = True,
         kwarg_only = False, annotation = None, field_name = Some n\<rparr>"
  let ?arg = "\<lambda>n b. \<lparr>arg_type = ''Tensor'', arg_name = n, is_nullable = Some False,
         arg_size = None, arg_default = None, arg_output = b,
         kwarg_only = False, annotation = None, field_name = None\<rparr>"
  let ?rets = "[?ret ''x'', ?ret ''y'']"
  have f0: "\<not> isl (compile_record ?f)" by code_simp
  then have f1: "compile_record ?f = Inr (projr (compile_record ?f))" by simp
  have f2: "split_signature (raw_func ?f)
      = Inr (''foo_out(Tensor a, Tensor b, Tensor self)'', ''(Tensor x, Tensor y)'')"
    by code_simp
  have f3: "split_func_decl ''foo_out(Tensor a, Tensor b, Tensor self)''
      = Inr (''foo_out'', ''Tensor a, Tensor b, Tensor self'')"
    by code_simp
  have f4: "parse_return_arguments ''(Tensor x, Tensor y)'' (is_inplace ''foo_out'') = Inr ?rets"
    by code_simp
  have f5: "parse_arguments ''Tensor a, Tensor b, Tensor self'' (raw_variants ?f)
      (opt_default ''foo_out'' (raw_name ?f)) ?rets (is_inplace ''foo_out'')
      = Inr [?arg ''a'' True, ?arg ''b'' True, ?arg ''self'' False]"
    by code_simp
  from returns_of_declaration [OF f1 f2 f3 f4 f5]
  have f6: "decl_return (projr (compile_record ?f))
      = [(?arg ''a'' True)\<lparr>field_name := Some ''x''\<rparr>, (?arg ''b'' True)\<lparr>field_name := Some ''y''\<rparr>]"
    by simp
  have g0: "\<not> isl (compile_record ?g)" by code_simp
  then have g1: "compile_record ?g = Inr (projr (compile_record ?g))" by simp
  have g2: "split_signature (raw_func ?g) = Inr (''foo(Tensor a)'', ''(Tensor x, Tensor y)'')"
    by code_simp
  have g3: "split_func_decl ''foo(Tensor a)'' = Inr (''foo'', ''Tensor a'')"
    by code_simp
  have g4: "parse_return_arguments ''(Tensor x, Tensor y)'' (is_inplace ''foo'') = Inr ?rets"
    by code_simp
  have g5: "parse_arguments ''Tensor a'' (raw_variants ?g)
      (opt_default ''foo'' (raw_name ?g)) ?rets (is_inplace ''foo'') = Inr [?arg ''a'' False]"
    by code_simp
  from returns_of_declaration [OF g1 g2 g3 g4 g5]
  have g6: "decl_return (projr (compile_record ?g)) = ?rets"
    by simp
  from f0 f6 g0 g6 show ?thesis
    by (cases "compile_record ?f"; cases "compile_record ?g") simp_all
qed

section \<open>The check of in-place functions\<close>

lemma self_loop_no_self:
  "\<forall>a \<in> set args. arg_name a \<noteq> ''self'' \<Longrightarrow> self_loop i found args rets = Inr found"
  by (induction args arbitrary: i) simp_all

lemma self_loop_found:
  "self_loop i found args rets = Inr b \<Longrightarrow>
     b = (found \<or> (\<exists>a \<in> set args. arg_name a = ''self''))"
proof (induction args arbitrary: i found)
  case Nil
  then show ?case by simp
next
  case (Cons a rest)
  show ?case
  proof (cases "arg_name a = ''self''")
    case True
    with Cons.prems have "self_loop (Suc i) True rest rets = Inr b"
      by (simp split: if_splits)
    from Cons.IH [OF this] True show ?thesis by simp
  next
    case False
    with Cons.prems have "self_loop (Suc i) found rest rets = Inr b" by simp
    from Cons.IH [OF this] False show ?thesis by simp
  qed
qed

lemma self_loop_checked:
  "self_loop i found args rets = Inr b \<Longrightarrow> j < length args \<Longrightarrow>
   arg_name (args ! j) = ''self'' \<Longrightarrow>
     mutable (annotation (args ! j)) \<and> i + j < length rets
     \<and> annotation (args ! j) = annotation (rets ! (i + j))
     \<and> arg_name (args ! j) = arg_name (rets ! (i + j))
     \<and> arg_type (args ! j) = arg_type (rets ! (i + j))"
proof (induction args arbitrary: i found j)
  case Nil
  then show ?case by simp
next
  case (Cons a rest)
  have rec: "\<exists>fnd. self_loop (Suc i) fnd rest rets = Inr b"
    using Cons.prems(1) by (auto split: if_splits)
  show ?case
  proof (cases j)
    case 0
    with Cons.prems show ?thesis by (simp split: if_splits)
  next
    case (Suc j')
    from rec obtain fnd where r: "self_loop (Suc i) fnd rest rets = Inr b" by blast
    have jr: "j' < length rest" using Cons.prems(2) Suc by simp
    have sr: "arg_name (rest ! j') = ''self''" using Cons.prems(3) Suc by simp
    note ih = Cons.IH [OF r jr sr]
    have e: "(a # rest) ! j = rest ! j'" "i + j = Suc i + j'" using Suc by simp_all
    show ?thesis unfolding e using ih .
  qed
qed

lemma mutable_iff: "mutable a \<longleftrightarrow> (\<exists>x. a = Some x \<and> endswith x ''!'')"
  by (cases a) (auto simp: mutable_def endswith_def)

text \<open>
  C1. Take an in-place function whose first return is not \<^verbatim>\<open>void\<close> and
  whose argument text is not blank. Its arguments are accepted only if one of them is
  named \<^verbatim>\<open>self\<close>, and every argument named \<^verbatim>\<open>self\<close> has an annotation ending in \<^verbatim>\<open>!\<close> and
  the same type, name and annotation as the return at the same position as that
  argument. When the arguments parse and none is named \<^verbatim>\<open>self\<close>, the failure is
  \<open>InPlaceSelfMissing\<close>. (The witness evaluates the two signatures of the specification:
  \<^verbatim>\<open>add_(Tensor(a!) self, Tensor other) -> Tensor(a!)\<close> compiles,
  \<^verbatim>\<open>add_(Tensor self, Tensor other) -> Tensor(a!)\<close> fails with \<open>InPlaceSelfMissing\<close>.)
\<close>

theorem inplace_self_check:
  "inplace \<and> func_return \<noteq> [] \<and> arg_type (hd func_return) \<noteq> ''void'' \<and> strip args \<noteq> [] \<longrightarrow>
     (parse_arguments args variants func_name func_return inplace = Inr arguments \<longrightarrow>
        (\<exists>i < length arguments. arg_name (arguments ! i) = ''self'')
        \<and> (\<forall>i < length arguments. arg_name (arguments ! i) = ''self'' \<longrightarrow>
              (\<exists>x. annotation (arguments ! i) = Some x \<and> endswith x ''!'')
              \<and> i < length func_return
              \<and> arg_type (arguments ! i) = arg_type (func_return ! i)
              \<and> arg_name (arguments ! i) = arg_name (func_return ! i)
              \<and> annotation (arguments ! i) = annotation (func_return ! i)))
     \<and> (\<not> (endswith func_name ''_out'' \<and> \<not> variants_allowed_for_out variants)
        \<and> arguments_loop (endswith func_name ''_out'') (length func_return) 0 False
              (py_split '', '' args) = Inr arguments
        \<and> (\<forall>a \<in> set arguments. arg_name a \<noteq> ''self'') \<longrightarrow>
          parse_arguments args variants func_name func_return inplace = Inl InPlaceSelfMissing)"
proof (intro impI conjI)
  assume pre: "inplace \<and> func_return \<noteq> [] \<and> arg_type (hd func_return) \<noteq> ''void'' \<and> strip args \<noteq> []"
  assume ok: "parse_arguments args variants func_name func_return inplace = Inr arguments"
  from pre ok obtain b where sl: "self_loop 0 False arguments func_return = Inr b" and b: b
    unfolding parse_arguments_def Let_def by (auto split: if_splits sum.splits)
  from self_loop_found [OF sl] b have "\<exists>a \<in> set arguments. arg_name a = ''self''" by simp
  then show "\<exists>i < length arguments. arg_name (arguments ! i) = ''self''"
    by (metis in_set_conv_nth)
  show "\<forall>i < length arguments. arg_name (arguments ! i) = ''self'' \<longrightarrow>
              (\<exists>x. annotation (arguments ! i) = Some x \<and> endswith x ''!'')
              \<and> i < length func_return
              \<and> arg_type (arguments ! i) = arg_type (func_return ! i)
              \<and> arg_name (arguments ! i) = arg_name (func_return ! i)
              \<and> annotation (arguments ! i) = annotation (func_return ! i)"
  proof (intro allI impI)
    fix i assume i: "i < length arguments" and s: "arg_name (arguments ! i) = ''self''"
    have "mutable (annotation (arguments ! i)) \<and> i < length func_return
        \<and> annotation (arguments ! i) = annotation (func_return ! i)
        \<and> arg_name (arguments ! i) = arg_name (func_return ! i)
        \<and> arg_type (arguments ! i) = arg_type (func_return ! i)"
      using self_loop_checked [OF sl i s] unfolding add_0 .
    then show "(\<exists>x. annotation (arguments ! i) = Some x \<and> endswith x ''!'')
              \<and> i < length func_return
              \<and> arg_type (arguments ! i) = arg_type (func_return ! i)
              \<and> arg_name (arguments ! i) = arg_name (func_return ! i)
              \<and> annotation (arguments ! i) = annotation (func_return ! i)"
      unfolding mutable_iff by blast
  qed
next
  assume pre: "inplace \<and> func_return \<noteq> [] \<and> arg_type (hd func_return) \<noteq> ''void'' \<and> strip args \<noteq> []"
  assume h: "\<not> (endswith func_name ''_out'' \<and> \<not> variants_allowed_for_out variants)
        \<and> arguments_loop (endswith func_name ''_out'') (length func_return) 0 False
              (py_split '', '' args) = Inr arguments
        \<and> (\<forall>a \<in> set arguments. arg_name a \<noteq> ''self'')"
  then have "self_loop 0 False arguments func_return = Inr False"
    using self_loop_no_self by blast
  with pre h show "parse_arguments args variants func_name func_return inplace = Inl InPlaceSelfMissing"
    unfolding parse_arguments_def Let_def by auto
qed

theorem inplace_self_check_witness:
  "\<not> isl (compile_record (signature_only ''add_(Tensor(a!) self, Tensor other) -> Tensor(a!)''))
   \<and> compile_record (signature_only ''add_(Tensor self, Tensor other) -> Tensor(a!)'')
       = Inl InPlaceSelfMissing
   \<and> (\<exists>arguments.
         parse_arguments ''Tensor(a!) self, Tensor other'' None ''add_''
           (projr (parse_return_arguments ''Tensor(a!)'' True)) True = Inr arguments
         \<and> (\<exists>i < length arguments. arg_name (arguments ! i) = ''self''))
   \<and> parse_arguments ''Tensor(a!) me, Tensor other'' None ''add_''
         (projr (parse_return_arguments ''Tensor(a!)'' True)) True = Inl InPlaceSelfMissing"
proof -
  let ?r = "\<lparr>arg_type = ''Tensor'', arg_name = ''self'', is_nullable = None,
         arg_size = None, arg_default = None, arg_output = True,
         kwarg_only = False, annotation = Some ''a!'', field_name = None\<rparr>"
  let ?arg = "\<lambda>n a. \<lparr>arg_type = ''Tensor'', arg_name = n, is_nullable = Some False,
         arg_size = None, arg_default = None, arg_output = False,
         kwarg_only = False, annotation = a, field_name = None\<rparr>"
  let ?args = "[?arg ''self'' (Some ''a!''), ?arg ''other'' None]"
  let ?margs = "[?arg ''me'' (Some ''a!''), ?arg ''other'' None]"
  have r: "projr (parse_return_arguments ''Tensor(a!)'' True) = [?r]" by code_simp
  have c1: "\<not> isl (compile_record (signature_only ''add_(Tensor(a!) self, Tensor other) -> Tensor(a!)''))"
    by code_simp
  have c2: "compile_record (signature_only ''add_(Tensor self, Tensor other) -> Tensor(a!)'')
       = Inl InPlaceSelfMissing"
    by code_simp
  have pre1: "True \<and> [?r] \<noteq> [] \<and> arg_type (hd [?r]) \<noteq> ''void''
      \<and> strip ''Tensor(a!) self, Tensor other'' \<noteq> []"
    by code_simp
  have pre2: "True \<and> [?r] \<noteq> [] \<and> arg_type (hd [?r]) \<noteq> ''void''
      \<and> strip ''Tensor(a!) me, Tensor other'' \<noteq> []"
    by code_simp
  have p1: "parse_arguments ''Tensor(a!) self, Tensor other'' None ''add_'' [?r] True = Inr ?args"
    by code_simp
  have v: "\<not> (endswith ''add_'' ''_out'' \<and> \<not> variants_allowed_for_out None)" by code_simp
  have l2: "arguments_loop (endswith ''add_'' ''_out'') (length [?r]) 0 False
      (py_split '', '' ''Tensor(a!) me, Tensor other'') = Inr ?margs"
    by code_simp
  have n2: "\<forall>a \<in> set ?margs. arg_name a \<noteq> ''self''" by simp
  from inplace_self_check [where inplace = True and func_return = "[?r]"
      and args = "''Tensor(a!) self, Tensor other''" and variants = None
      and func_name = "''add_''" and arguments = ?args] pre1 p1
  have a: "\<exists>i < length ?args. arg_name (?args ! i) = ''self''" by blast
  from inplace_self_check [where inplace = True and func_return = "[?r]"
      and args = "''Tensor(a!) me, Tensor other''" and variants = None
      and func_name = "''add_''" and arguments = ?margs] pre2 v l2 n2
  have b: "parse_arguments ''Tensor(a!) me, Tensor other'' None ''add_'' [?r] True
      = Inl InPlaceSelfMissing" by blast
  from c1 c2 p1 a b show ?thesis unfolding r by blast
qed

text \<open>
  The argument \<^verbatim>\<open>self\<close> is compared with the return at its own position, not with the
  first return: this in-place signature compiles although the first return differs from
  \<^verbatim>\<open>self\<close> in name and annotation.
\<close>

theorem self_matched_by_position:
  "(case compile_record (signature_only
        ''foo_(Tensor other, Tensor(a!) self) -> (Tensor(b!) x, Tensor(a!) self)'') of
      Inl e \<Rightarrow> None
    | Inr d \<Rightarrow> Some (decl_inplace d,
                     map arg_name (decl_arguments d), map annotation (decl_arguments d),
                     map arg_type (decl_return d), map arg_name (decl_return d),
                     map annotation (decl_return d)))
   = Some (True,
           [''other'', ''self''], [None, Some ''a!''],
           [''Tensor'', ''Tensor''], [''x'', ''self''], [Some ''b!'', Some ''a!''])"
  by code_simp

text \<open>
  With an empty argument list the argument parser returns before the check: an in-place
  function without any argument compiles.
\<close>

lemma empty_argument_list_skips_self_check:
  "(case compile_record (signature_only ''foo_() -> Tensor(a!)'') of
      Inl e \<Rightarrow> None
    | Inr d \<Rightarrow> Some (decl_inplace d, decl_arguments d, map arg_type (decl_return d)))
   = Some (True, [], [''Tensor''])"
  by code_simp

section \<open>Nullable arguments\<close>

lemma endswith_sanitize_type: "endswith (sanitize_type t) ''?'' = endswith t ''?''"
  by (simp add: sanitize_type_def endswith_def)

lemma sanitize_types_plain:
  "sanitize_types t = Inr tys \<Longrightarrow> \<not> (hd t = CHR ''('' \<and> last t = CHR '')'') \<Longrightarrow>
     tys = [sanitize_type t]"
  by (auto simp: sanitize_types_def split: if_splits)

lemma generator_pointer_facts:
  "sanitize_types ''Generator*'' = Inr [''Generator *'']"
  "rstrip_char (CHR ''?'') ''Generator *'' = ''Generator *''"
  "int_list_size ''Generator *'' = None"
  "temp_type_translations ''Generator *'' = ''Generator *''"
  "endswith ''Generator *'' ''?'' = False"
  by code_simp+

lemma parse_argument_nullable:
  assumes "parse_argument outf n i k [t0, name0] = Inr a"
  shows "(fst (get_annotation t0) = ''Generator?'' \<longrightarrow>
            is_nullable a = Some False \<and> arg_type a = ''Generator *'')
       \<and> (fst (get_annotation t0) \<noteq> ''Generator?''
            \<and> \<not> (hd (fst (get_annotation t0)) = CHR ''('' \<and> last (fst (get_annotation t0)) = CHR '')'')
          \<longrightarrow> is_nullable a = Some (endswith (fst (get_annotation t0)) ''?'')
            \<and> arg_type a =
                temp_type_translations
                  (if int_list_size (rstrip_char (CHR ''?'') (sanitize_type (fst (get_annotation t0)))) = None
                   then rstrip_char (CHR ''?'') (sanitize_type (fst (get_annotation t0)))
                   else ''IntList''))"
proof (cases "get_annotation t0")
  case (Pair t1 annot)
  show ?thesis
  proof (cases "t1 = ''Generator?''")
    case True
    with assms Pair show ?thesis
      unfolding parse_argument_def Let_def
      by (auto simp: generator_pointer_facts split: sum.splits prod.splits if_splits)
  next
    case False
    from assms Pair False obtain tys where st: "sanitize_types t1 = Inr tys"
      and len: "length tys = 1"
      and a: "is_nullable a = Some (endswith (hd tys) ''?'')"
      and a2: "arg_type a = temp_type_translations
             (if int_list_size (rstrip_char (CHR ''?'') (hd tys)) = None
              then rstrip_char (CHR ''?'') (hd tys) else ''IntList'')"
      unfolding parse_argument_def Let_def
      by (auto split: sum.splits prod.splits if_splits)
    have g1: "fst (get_annotation t0) = ''Generator?'' \<longrightarrow>
            is_nullable a = Some False \<and> arg_type a = ''Generator *''"
      using Pair False by simp
    have g2: "fst (get_annotation t0) \<noteq> ''Generator?''
            \<and> \<not> (hd (fst (get_annotation t0)) = CHR ''('' \<and> last (fst (get_annotation t0)) = CHR '')'')
          \<longrightarrow> is_nullable a = Some (endswith (fst (get_annotation t0)) ''?'')
            \<and> arg_type a =
                temp_type_translations
                  (if int_list_size (rstrip_char (CHR ''?'') (sanitize_type (fst (get_annotation t0)))) = None
                   then rstrip_char (CHR ''?'') (sanitize_type (fst (get_annotation t0)))
                   else ''IntList'')"
    proof
      assume h: "fst (get_annotation t0) \<noteq> ''Generator?''
            \<and> \<not> (hd (fst (get_annotation t0)) = CHR ''('' \<and> last (fst (get_annotation t0)) = CHR '')'')"
      with Pair have "\<not> (hd t1 = CHR ''('' \<and> last t1 = CHR '')'')" by simp
      from sanitize_types_plain [OF st this] have "hd tys = sanitize_type t1" by simp
      with a a2 Pair show "is_nullable a = Some (endswith (fst (get_annotation t0)) ''?'')
            \<and> arg_type a =
                temp_type_translations
                  (if int_list_size (rstrip_char (CHR ''?'') (sanitize_type (fst (get_annotation t0)))) = None
                   then rstrip_char (CHR ''?'') (sanitize_type (fst (get_annotation t0)))
                   else ''IntList'')"
        by (simp add: endswith_sanitize_type)
    qed
    from g1 g2 show ?thesis by (rule conjI)
  qed
qed

lemma parse_argument_shape:
  "parse_argument outf n i k tn = Inr a \<Longrightarrow> \<exists>t0 name0. tn = [t0, name0]"
  unfolding parse_argument_def by (auto split: list.splits)

lemma arguments_loop_pieces:
  "arguments_loop outf n i k toks = Inr args \<Longrightarrow> a \<in> set args \<Longrightarrow>
     \<exists>piece \<in> set toks. \<exists>j kw.
        parse_argument outf n j kw (map strip (py_rsplit1 '' '' piece)) = Inr a"
proof (induction toks arbitrary: i k args)
  case Nil
  then show ?case by simp
next
  case (Cons tok rest)
  show ?case
  proof (cases "map strip (py_rsplit1 '' '' tok) = [''*'']")
    case True
    with Cons.prems(1) have "arguments_loop outf n (Suc i) True rest = Inr args"
      by (simp split: if_splits)
    from Cons.IH [OF this Cons.prems(2)] show ?thesis by auto
  next
    case False
    with Cons.prems(1) obtain b bs where
      b: "parse_argument outf n i k (map strip (py_rsplit1 '' '' tok)) = Inr b"
      and bs: "arguments_loop outf n (Suc i) k rest = Inr bs" and args: "args = b # bs"
      by (auto split: sum.splits)
    show ?thesis
    proof (cases "a = b")
      case True
      with b show ?thesis by auto
    next
      case False
      with Cons.prems(2) args have "a \<in> set bs" by simp
      from Cons.IH [OF bs this] show ?thesis by auto
    qed
  qed
qed

text \<open>
  C3. Every argument of a successfully parsed argument list comes from one
  piece of the argument text, cut at its last blank into a type and a name. Let \<open>t\<close> be
  the type with its annotation wrapper taken off. If \<open>t\<close> is \<^verbatim>\<open>Generator?\<close>, the argument
  is stored with the type \<^verbatim>\<open>Generator *\<close> and is not nullable. Otherwise, when \<open>t\<close> is not
  a parenthesised tuple, the argument is nullable exactly when \<open>t\<close> ends with \<^verbatim>\<open>?\<close>, and
  the stored type is \<open>t\<close> (with \<^verbatim>\<open>Generator*\<close> respelled) without its trailing \<^verbatim>\<open>?\<close>
  characters, rewritten to \<^verbatim>\<open>IntList\<close> when it is a sized integer list, then translated
  by the alias table.
\<close>

theorem nullable_arguments:
  "parse_arguments args variants func_name func_return inplace = Inr arguments
   \<and> a \<in> set arguments \<longrightarrow>
     (\<exists>piece \<in> set (py_split '', '' args). \<exists>t0 name0 j kw.
        map strip (py_rsplit1 '' '' piece) = [t0, name0]
        \<and> parse_argument (endswith func_name ''_out'') (length func_return) j kw [t0, name0] = Inr a
        \<and> (fst (get_annotation t0) = ''Generator?'' \<longrightarrow>
              is_nullable a = Some False \<and> arg_type a = ''Generator *'')
        \<and> (fst (get_annotation t0) \<noteq> ''Generator?''
              \<and> \<not> (hd (fst (get_annotation t0)) = CHR ''('' \<and> last (fst (get_annotation t0)) = CHR '')'')
            \<longrightarrow> is_nullable a = Some (endswith (fst (get_annotation t0)) ''?'')
              \<and> arg_type a =
                  temp_type_translations
                    (if int_list_size (rstrip_char (CHR ''?'') (sanitize_type (fst (get_annotation t0)))) = None
                     then rstrip_char (CHR ''?'') (sanitize_type (fst (get_annotation t0)))
                     else ''IntList'')))"
proof
  assume h: "parse_arguments args variants func_name func_return inplace = Inr arguments
   \<and> a \<in> set arguments"
  then have mem: "a \<in> set arguments" by simp
  from h have "arguments = [] \<or>
      arguments_loop (endswith func_name ''_out'') (length func_return) 0 False
        (py_split '', '' args) = Inr arguments"
    unfolding parse_arguments_def Let_def by (auto split: if_splits sum.splits)
  with mem have "arguments_loop (endswith func_name ''_out'') (length func_return) 0 False
        (py_split '', '' args) = Inr arguments" by auto
  from arguments_loop_pieces [OF this mem] obtain piece j kw where
    p: "piece \<in> set (py_split '', '' args)"
    and pa: "parse_argument (endswith func_name ''_out'') (length func_return) j kw
               (map strip (py_rsplit1 '' '' piece)) = Inr a"
    by blast
  from parse_argument_shape [OF pa] obtain t0 name0 where
    tn: "map strip (py_rsplit1 '' '' piece) = [t0, name0]" by auto
  with pa have pa': "parse_argument (endswith func_name ''_out'') (length func_return) j kw
               [t0, name0] = Inr a" by simp
  note n = parse_argument_nullable [OF pa']
  from tn pa' n [THEN conjunct1] n [THEN conjunct2]
  have body: "map strip (py_rsplit1 '' '' piece) = [t0, name0]
        \<and> parse_argument (endswith func_name ''_out'') (length func_return) j kw [t0, name0] = Inr a
        \<and> (fst (get_annotation t0) = ''Generator?'' \<longrightarrow>
              is_nullable a = Some False \<and> arg_type a = ''Generator *'')
        \<and> (fst (get_annotation t0) \<noteq> ''Generator?''
              \<and> \<not> (hd (fst (get_annotation t0)) = CHR ''('' \<and> last (fst (get_annotation t0)) = CHR '')'')
            \<longrightarrow> is_nullable a = Some (endswith (fst (get_annotation t0)) ''?'')
              \<and> arg_type a =
                  temp_type_translations
                    (if int_list_size (rstrip_char (CHR ''?'') (sanitize_type (fst (get_annotation t0)))) = None
                     then rstrip_char (CHR ''?'') (sanitize_type (fst (get_annotation t0)))
                     else ''IntList''))"
    by (intro conjI)
  show "\<exists>piece \<in> set (py_split '', '' args). \<exists>t0 name0 j kw.
        map strip (py_rsplit1 '' '' piece) = [t0, name0]
        \<and> parse_argument (endswith func_name ''_out'') (length func_return) j kw [t0, name0] = Inr a
        \<and> (fst (get_annotation t0) = ''Generator?'' \<longrightarrow>
              is_nullable a = Some False \<and> arg_type a = ''Generator *'')
        \<and> (fst (get_annotation t0) \<noteq> ''Generator?''
              \<and> \<not> (hd (fst (get_annotation t0)) = CHR ''('' \<and> last (fst (get_annotation t0)) = CHR '')'')
            \<longrightarrow> is_nullable a = Some (endswith (fst (get_annotation t0)) ''?'')
              \<and> arg_type a =
                  temp_type_translations
                    (if int_list_size (rstrip_char (CHR ''?'') (sanitize_type (fst (get_annotation t0)))) = None
                     then rstrip_char (CHR ''?'') (sanitize_type (fst (get_annotation t0)))
                     else ''IntList''))"
    by (rule bexI [OF _ p], (rule exI)+, rule body)
qed

theorem nullable_arguments_witness:
  "(parse_arguments ''Tensor? w, int[2]? k'' None ''f'' [] False
      = Inr [\<lparr>arg_type = ''Tensor'', arg_name = ''w'', is_nullable = Some True,
               arg_size = None, arg_default = None, arg_output = False,
               kwarg_only = False, annotation = None, field_name = None\<rparr>,
             \<lparr>arg_type = ''IntList'', arg_name = ''k'', is_nullable = Some True,
               arg_size = Some 2, arg_default = None, arg_output = False,
               kwarg_only = False, annotation = None, field_name = None\<rparr>])
   \<and> (\<exists>piece \<in> set (py_split '', '' ''Tensor? w, int[2]? k''). \<exists>t0 name0 j kw.
        map strip (py_rsplit1 '' '' piece) = [t0, name0]
        \<and> parse_argument (endswith ''f'' ''_out'') (length ([] :: argument_dict list)) j kw [t0, name0]
            = Inr \<lparr>arg_type = ''IntList'', arg_name = ''k'', is_nullable = Some True,
                    arg_size = Some 2, arg_default = None, arg_output = False,
                    kwarg_only = False, annotation = None, field_name = None\<rparr>)"
proof -
  let ?w = "\<lparr>arg_type = ''Tensor'', arg_name = ''w'', is_nullable = Some True,
               arg_size = None, arg_default = None, arg_output = False,
               kwarg_only = False, annotation = None, field_name = None\<rparr>"
  let ?k = "\<lparr>arg_type = ''IntList'', arg_name = ''k'', is_nullable = Some True,
               arg_size = Some 2, arg_default = None, arg_output = False,
               kwarg_only = False, annotation = None, field_name = None\<rparr>"
  have p: "parse_arguments ''Tensor? w, int[2]? k'' None ''f'' [] False = Inr [?w, ?k]"
    by code_simp
  have m: "?k \<in> set [?w, ?k]" by simp
  note c = nullable_arguments [where args = "''Tensor? w, int[2]? k''" and variants = None
      and func_name = "''f''" and func_return = "[]" and inplace = False
      and arguments = "[?w, ?k]" and a = ?k, THEN mp, OF conjI [OF p m]]
  from c have "\<exists>piece \<in> set (py_split '', '' ''Tensor? w, int[2]? k''). \<exists>t0 name0 j kw.
        map strip (py_rsplit1 '' '' piece) = [t0, name0]
        \<and> parse_argument (endswith ''f'' ''_out'') (length ([] :: argument_dict list)) j kw [t0, name0]
            = Inr ?k"
    by (elim bexE exE conjE) (rule bexI, (rule exI)+, rule conjI, assumption, assumption, assumption)
  with p show ?thesis by (rule conjI)
qed

text \<open>
  An argument written with the type \<^verbatim>\<open>Generator?\<close> is stored as \<^verbatim>\<open>Generator *\<close> and is not
  nullable, while \<^verbatim>\<open>Tensor?\<close> in the same signature is.
\<close>

theorem generator_not_nullable:
  "(case compile_record (signature_only ''f(Generator? g, Tensor? w) -> Tensor'') of
      Inl e \<Rightarrow> None
    | Inr d \<Rightarrow> Some (map arg_name (decl_arguments d), map arg_type (decl_arguments d),
                     map is_nullable (decl_arguments d)))
   = Some ([''g'', ''w''], [''Generator *'', ''Tensor''], [Some False, Some True])"
  by code_simp

section \<open>The generated wrapper files\<close>

lemma path_join_wrappers:
  "path_join ''wrappers'' f = (if prefix ''/'' f then f else ''wrappers/'' @ f)"
  by (simp add: path_join_def endswith_def)

lemma path_join_wrappers_inj:
  "path_join ''wrappers'' f = path_join ''wrappers'' g \<Longrightarrow> f = g"
  by (auto simp: path_join_wrappers split: if_splits)

lemma files_write_wrapper:
  "files (write_wrapper c f s) = (files s)(path_join ''wrappers'' f \<mapsto> wrapper_text c f)"
  by (simp add: write_wrapper_def Let_def makedirs_def)

lemma files_write_wrappers_other:
  "p \<notin> path_join ''wrappers'' ` set fs \<Longrightarrow> files (write_wrappers c fs s) p = files s p"
  by (induction fs arbitrary: s) (auto simp: files_write_wrapper)

lemma files_write_wrappers_written:
  "distinct fs \<Longrightarrow> f \<in> set fs \<Longrightarrow>
     files (write_wrappers c fs s) (path_join ''wrappers'' f) = Some (wrapper_text c f)"
proof (induction fs arbitrary: s)
  case Nil
  then show ?case by simp
next
  case (Cons g rest)
  show ?case
  proof (cases "f = g")
    case True
    with Cons.prems have "f \<notin> set rest" by simp
    then have "path_join ''wrappers'' f \<notin> path_join ''wrappers'' ` set rest"
      using path_join_wrappers_inj by blast
    from files_write_wrappers_other [OF this] True show ?thesis
      by (simp add: files_write_wrapper)
  next
    case False
    with Cons.prems have "distinct rest" "f \<in> set rest" by simp_all
    from Cons.IH [OF this] show ?thesis by simp
  qed
qed

lemma files_generate_other:
  "p \<notin> path_join ''wrappers'' ` set (concat (map snd table)) \<Longrightarrow>
     files (generate table s) p = files s p"
proof (induction table arbitrary: s)
  case Nil
  then show ?case by simp
next
  case (Cons e rest)
  obtain c fs where e: "e = (c, fs)" by (cases e)
  from Cons.prems e have a: "p \<notin> path_join ''wrappers'' ` set fs"
    and b: "p \<notin> path_join ''wrappers'' ` set (concat (map snd rest))" by auto
  from Cons.IH [OF b] files_write_wrappers_other [OF a] e show ?case by simp
qed

lemma files_generate_written:
  "distinct (concat (map snd table)) \<Longrightarrow> (c, fs) \<in> set table \<Longrightarrow> f \<in> set fs \<Longrightarrow>
     files (generate table s) (path_join ''wrappers'' f) = Some (wrapper_text c f)"
proof (induction table arbitrary: s)
  case Nil
  then show ?case by simp
next
  case (Cons e rest)
  obtain c' fs' where e: "e = (c', fs')" by (cases e)
  from Cons.prems(1) e have d1: "distinct fs'" and d2: "distinct (concat (map snd rest))"
    and d3: "set fs' \<inter> set (concat (map snd rest)) = {}" by simp_all
  show ?case
  proof (cases "(c, fs) = (c', fs')")
    case True
    with d3 Cons.prems(3) have "f \<notin> set (concat (map snd rest))" by auto
    then have "path_join ''wrappers'' f \<notin> path_join ''wrappers'' ` set (concat (map snd rest))"
      using path_join_wrappers_inj by blast
    from files_generate_other [OF this] have
      "files (generate rest (write_wrappers c' fs' s)) (path_join ''wrappers'' f)
        = files (write_wrappers c' fs' s) (path_join ''wrappers'' f)" .
    also have "\<dots> = Some (wrapper_text c f)"
      using files_write_wrappers_written [OF d1, of f c' s] True Cons.prems(3) by simp
    finally show ?thesis using e by simp
  next
    case False
    with Cons.prems(2) e have "(c, fs) \<in> set rest" by auto
    from Cons.IH [OF d2 this Cons.prems(3)] e show ?thesis by simp
  qed
qed

lemma wrapper_text_lines:
  "wrapper_text condition filename =
     BANNER @ [newline] @ [newline]
     @ (case condition of
          None \<Rightarrow> ''#include <'' @ filename @ ''>'' @ [newline]
        | Some c \<Rightarrow> ''#if '' @ c @ [newline]
                   @ ''#include <'' @ filename @ ''>'' @ [newline]
                   @ ''#endif /* '' @ c @ '' */'' @ [newline])"
  by (cases condition) (simp_all add: wrapper_text_def print_line_def Let_def)

lemma QNNPACK_SOURCES_distinct: "distinct (concat (map snd QNNPACK_SOURCES))"
  unfolding QNNPACK_SOURCES_def by simp

lemma QNNPACK_SOURCES_relative:
  "\<forall>f \<in> set (concat (map snd QNNPACK_SOURCES)). \<not> prefix ''/'' f"
  unfolding QNNPACK_SOURCES_def by simp

text \<open>
  C8. For every condition and file of the table, the run leaves at
  \<^verbatim>\<open>wrappers/<file>\<close> a file whose content is exactly the banner line, an empty line, and
  then: for the unconditional group the one line \<^verbatim>\<open>#include <file>\<close>; for a condition
  the three lines \<^verbatim>\<open>#if <condition>\<close>, \<^verbatim>\<open>#include <file>\<close> and
  \<^verbatim>\<open>#endif /* <condition> */\<close>, with the condition copied as it is. This holds from
  every starting state of the file system.
\<close>

theorem wrapper_files:
  "\<forall>(condition, filenames) \<in> set QNNPACK_SOURCES. \<forall>filename \<in> set filenames.
      files (main fs) (''wrappers/'' @ filename) =
        Some (BANNER @ [newline] @ [newline]
              @ (case condition of
                   None \<Rightarrow> ''#include <'' @ filename @ ''>'' @ [newline]
                 | Some c \<Rightarrow> ''#if '' @ c @ [newline]
                            @ ''#include <'' @ filename @ ''>'' @ [newline]
                            @ ''#endif /* '' @ c @ '' */'' @ [newline]))"
proof (intro ballI, clarify)
  fix condition filenames filename
  assume e: "(condition, filenames) \<in> set QNNPACK_SOURCES" and f: "filename \<in> set filenames"
  from e f have "filename \<in> set (concat (map snd QNNPACK_SOURCES))" by force
  with QNNPACK_SOURCES_relative have "\<not> prefix ''/'' filename" by blast
  then have p: "path_join ''wrappers'' filename = ''wrappers/'' @ filename"
    by (simp add: path_join_wrappers)
  from files_generate_written [OF QNNPACK_SOURCES_distinct e f, of fs]
  show "files (main fs) (''wrappers/'' @ filename) =
        Some (BANNER @ [newline] @ [newline]
              @ (case condition of
                   None \<Rightarrow> ''#include <'' @ filename @ ''>'' @ [newline]
                 | Some c \<Rightarrow> ''#if '' @ c @ [newline]
                            @ ''#include <'' @ filename @ ''>'' @ [newline]
                            @ ''#endif /* '' @ c @ '' */'' @ [newline]))"
    unfolding main_def p wrapper_text_lines .
qed


theorem wrapper_files_witness:
  "files (main \<lparr>files = Map.empty, dirs = {}\<rparr>) ''wrappers/q8conv/4x8-aarch32-neon.S''
     = Some (''/* Auto-generated by generate-wrappers.py script. Do not modify */'' @ [newline]
             @ [newline]
             @ ''#if defined(__arm__)'' @ [newline]
             @ ''#include <q8conv/4x8-aarch32-neon.S>'' @ [newline]
             @ ''#endif /* defined(__arm__) */'' @ [newline])
   \<and> files (main \<lparr>files = Map.empty, dirs = {}\<rparr>) ''wrappers/x8lut/scalar.c''
     = Some (''/* Auto-generated by generate-wrappers.py script. Do not modify */'' @ [newline]
             @ [newline]
             @ ''#include <x8lut/scalar.c>'' @ [newline])"
proof -
  let ?fs = "\<lparr>files = Map.empty, dirs = {}\<rparr>"
  let ?arm = "[''hgemm/8x8-aarch32-neonfp16arith.S'', ''q8conv/4x8-aarch32-neon.S'',
               ''q8dwconv/up8x9-aarch32-neon.S'', ''q8dwconv/up8x9-aarch32-neon-per-channel.S'',
               ''q8gemm/4x8-aarch32-neon.S'', ''q8gemm/4x8-dq-aarch32-neon.S'',
               ''q8gemm/4x8c2-xzp-aarch32-neon.S'']"
  let ?gen = "[''requantization/fp32-psimd.c'', ''requantization/fp32-scalar.c'',
               ''requantization/gemmlowp-scalar.c'', ''requantization/precise-psimd.c'',
               ''requantization/precise-scalar.c'', ''requantization/q31-scalar.c'',
               ''sgemm/6x8-psimd.c'', ''u8lut32norm/scalar.c'', ''x8lut/scalar.c'']"
  have m1: "(Some ''defined(__arm__)'', ?arm) \<in> set QNNPACK_SOURCES"
    by (simp add: QNNPACK_SOURCES_def)
  have m2: "''q8conv/4x8-aarch32-neon.S'' \<in> set ?arm" by simp
  have m3: "(None, ?gen) \<in> set QNNPACK_SOURCES"
    by (simp add: QNNPACK_SOURCES_def)
  have m4: "''x8lut/scalar.c'' \<in> set ?gen" by simp
  note a = wrapper_files [of ?fs, THEN bspec, OF m1, unfolded prod.case, THEN bspec, OF m2,
      unfolded option.case]
  note b = wrapper_files [of ?fs, THEN bspec, OF m3, unfolded prod.case, THEN bspec, OF m4,
      unfolded option.case]
  from a b show ?thesis by (simp add: BANNER_def)
qed

lemma files_write_wrappers_eq:
  "files (write_wrappers c fs s)
     = files s ++ map_of (rev (map (\<lambda>f. (path_join ''wrappers'' f, wrapper_text c f)) fs))"
  by (induction fs arbitrary: s) (simp_all add: files_write_wrapper)

lemma files_generate_eq:
  "files (generate table s)
     = files s ++ map_of (rev (concat (map (\<lambda>(c, fs).
           map (\<lambda>f. (path_join ''wrappers'' f, wrapper_text c f)) fs) table)))"
proof (induction table arbitrary: s)
  case Nil
  show ?case by simp
next
  case (Cons e rest)
  obtain c fs where e: "e = (c, fs)" by (cases e)
  show ?case unfolding e by (simp add: Cons.IH files_write_wrappers_eq)
qed

lemma map_add_twice: "(m ++ g) ++ g = m ++ g"
  by (rule ext) (simp add: map_add_def split: option.splits)

lemma dirname_in_makedirs: "d \<in> dirs (makedirs d s)"
  by (simp add: makedirs_def)

lemma dirs_write_wrapper:
  "dirs s \<subseteq> dirs (write_wrapper c f s)
   \<and> dirname (path_join ''wrappers'' f) \<in> dirs (write_wrapper c f s)"
  by (auto simp: write_wrapper_def Let_def isdir_def makedirs_def)

lemma dirs_write_wrapper_present:
  "dirname (path_join ''wrappers'' f) \<in> dirs s \<Longrightarrow> dirs (write_wrapper c f s) = dirs s"
  by (simp add: write_wrapper_def Let_def isdir_def)

lemma dirs_write_wrappers:
  "dirs s \<subseteq> dirs (write_wrappers c fs s)
   \<and> (\<forall>f \<in> set fs. dirname (path_join ''wrappers'' f) \<in> dirs (write_wrappers c fs s))"
proof (induction fs arbitrary: s)
  case Nil
  show ?case by simp
next
  case (Cons g rest)
  from Cons.IH [of "write_wrapper c g s"] dirs_write_wrapper [of s c g]
  show ?case by auto
qed

lemma dirs_write_wrappers_present:
  "\<forall>f \<in> set fs. dirname (path_join ''wrappers'' f) \<in> dirs s \<Longrightarrow>
     dirs (write_wrappers c fs s) = dirs s"
  by (induction fs arbitrary: s) (simp_all add: dirs_write_wrapper_present)

lemma dirs_generate:
  "dirs s \<subseteq> dirs (generate table s)
   \<and> (\<forall>f \<in> set (concat (map snd table)).
         dirname (path_join ''wrappers'' f) \<in> dirs (generate table s))"
proof (induction table arbitrary: s)
  case Nil
  show ?case by simp
next
  case (Cons e rest)
  obtain c fs where e: "e = (c, fs)" by (cases e)
  from Cons.IH [of "write_wrappers c fs s"] dirs_write_wrappers [of s c fs]
  show ?case unfolding e by auto
qed

lemma dirs_generate_present:
  "\<forall>f \<in> set (concat (map snd table)). dirname (path_join ''wrappers'' f) \<in> dirs s \<Longrightarrow>
     dirs (generate table s) = dirs s"
proof (induction table arbitrary: s)
  case Nil
  show ?case by simp
next
  case (Cons e rest)
  obtain c fs where e: "e = (c, fs)" by (cases e)
  from Cons.prems e have a: "\<forall>f \<in> set fs. dirname (path_join ''wrappers'' f) \<in> dirs s"
    and b: "\<forall>f \<in> set (concat (map snd rest)). dirname (path_join ''wrappers'' f) \<in> dirs s"
    by auto
  from dirs_write_wrappers_present [OF a] have d: "dirs (write_wrappers c fs s) = dirs s" .
  with b have "\<forall>f \<in> set (concat (map snd rest)).
      dirname (path_join ''wrappers'' f) \<in> dirs (write_wrappers c fs s)" by simp
  from Cons.IH [OF this] d show ?case unfolding e by simp
qed

text \<open>
  C9. Running the generator a second time with the same table changes nothing: the
  files, their contents and the directories are those left by the first run. The paths
  of the table are taken to be pairwise distinct; the proof does
  not need it, since a second run repeats the writes of the first in the same order.
\<close>

theorem generate_idempotent:
  "distinct (map (path_join ''wrappers'') (concat (map snd table))) \<longrightarrow>
     generate table (generate table fs) = generate table fs"
proof
  have f: "files (generate table (generate table fs)) = files (generate table fs)"
    by (simp add: files_generate_eq [of table "generate table fs"] files_generate_eq [of table fs]
        map_add_twice)
  from dirs_generate [of fs table]
  have "\<forall>f \<in> set (concat (map snd table)).
      dirname (path_join ''wrappers'' f) \<in> dirs (generate table fs)" by simp
  from dirs_generate_present [OF this]
  have d: "dirs (generate table (generate table fs)) = dirs (generate table fs)" .
  from f d show "generate table (generate table fs) = generate table fs"
    by (simp add: file_system.equality)
qed

theorem generate_idempotent_witness:
  "distinct (map (path_join ''wrappers'') (concat (map snd [(None, [''a/x.c'']), (Some ''defined(__arm__)'', [''a/y.S''])])))
   \<and> generate [(None, [''a/x.c'']), (Some ''defined(__arm__)'', [''a/y.S''])]
        (generate [(None, [''a/x.c'']), (Some ''defined(__arm__)'', [''a/y.S''])]
           \<lparr>files = Map.empty, dirs = {}\<rparr>)
      = generate [(None, [''a/x.c'']), (Some ''defined(__arm__)'', [''a/y.S''])]
           \<lparr>files = Map.empty, dirs = {}\<rparr>
   \<and> main (main \<lparr>files = Map.empty, dirs = {}\<rparr>) = main \<lparr>files = Map.empty, dirs = {}\<rparr>"
proof -
  let ?t = "[(None, [''a/x.c'']), (Some ''defined(__arm__)'', [''a/y.S''])]"
  let ?fs = "\<lparr>files = Map.empty, dirs = {}\<rparr>"
  have d: "distinct (map (path_join ''wrappers'') (concat (map snd ?t)))"
    by (simp add: path_join_wrappers)
  have dq: "distinct (map (path_join ''wrappers'') (concat (map snd QNNPACK_SOURCES)))"
    using QNNPACK_SOURCES_distinct path_join_wrappers_inj
    by (simp add: distinct_map inj_on_def)
  from generate_idempotent [of ?t ?fs] d
  have a: "generate ?t (generate ?t ?fs) = generate ?t ?fs" by blast
  from generate_idempotent [of QNNPACK_SOURCES ?fs] dq
  have b: "main (main ?fs) = main ?fs" unfolding main_def by blast
  from d a b show ?thesis by blast
qed

end
